theory Spec2Isabelle
  imports Main "HOL-Library.Sublist"
begin

unbundle bit_operations_syntax

text \<open>
  A model of \<^verbatim>\<open>src/main.py\<close>: the classifier \<^verbatim>\<open>get_server_name_advanced\<close> with
  \<^verbatim>\<open>resolve_ip_async\<close> and \<^verbatim>\<open>is_akamai_ip\<close>, the walker \<^verbatim>\<open>check_url_status\<close>, and the
  batch handling of \<^verbatim>\<open>websocket_endpoint\<close>. Functions of the program keep their names.
  The process-wide cache is a state that every function takes and returns; an
  exception is a value, and a function that can raise returns a sum whose left side is
  the exception; the HTTP client, name resolution, the URL functions of the standard
  library and the case mappings of \<^verbatim>\<open>str\<close> outside ASCII are parameters.
\<close>

section \<open>Strings as Python uses them in \<^verbatim>\<open>main.py\<close>\<close>

text \<open>
  A Python \<^verbatim>\<open>str\<close> is a sequence of Unicode code points, and is modelled as the list of
  their numbers. \<open>ascii\<close> gives the \<^verbatim>\<open>str\<close> of a literal of the program.
\<close>

type_synonym codepoint = nat

type_synonym pystr = "codepoint list"

definition ascii :: "string \<Rightarrow> pystr" where
  "ascii s = map of_char s"

text \<open>\<^verbatim>\<open>sub in s\<close> for strings: \<open>sub\<close> occurs in \<open>s\<close> as a contiguous block.\<close>

primrec contains :: "pystr \<Rightarrow> pystr \<Rightarrow> bool" where
  "contains [] sub = (sub = [])"
| "contains (c # cs) sub = (prefix sub (c # cs) \<or> contains cs sub)"

text \<open>\<^verbatim>\<open>s.startswith(p)\<close>\<close>

definition startswith :: "pystr \<Rightarrow> pystr \<Rightarrow> bool" where
  "startswith s p = prefix p s"

text \<open>
  The code points \<^verbatim>\<open>str.strip()\<close> removes, those for which \<^verbatim>\<open>str.isspace()\<close> holds:
  U+0009 to U+000D, U+001C to U+0020, U+0085, U+00A0, U+1680, U+2000 to U+200A,
  U+2028, U+2029, U+202F, U+205F and U+3000.
\<close>

definition is_space :: "codepoint \<Rightarrow> bool" where
  "is_space c =
     ((0x09 \<le> c \<and> c \<le> 0x0D) \<or> (0x1C \<le> c \<and> c \<le> 0x20) \<or> c = 0x85 \<or> c = 0xA0 \<or>
      c = 0x1680 \<or> (0x2000 \<le> c \<and> c \<le> 0x200A) \<or> c = 0x2028 \<or> c = 0x2029 \<or>
      c = 0x202F \<or> c = 0x205F \<or> c = 0x3000)"

definition strip :: "pystr \<Rightarrow> pystr" where
  "strip s = rev (dropWhile is_space (rev (dropWhile is_space s)))"

text \<open>
  The line boundaries of \<^verbatim>\<open>str.splitlines()\<close>: U+000A to U+000D (a carriage return
  with a following line feed being one boundary), U+001C to U+001E, U+0085, U+2028
  and U+2029.
\<close>

definition is_linebreak :: "codepoint \<Rightarrow> bool" where
  "is_linebreak c =
     ((0x0A \<le> c \<and> c \<le> 0x0D) \<or> (0x1C \<le> c \<and> c \<le> 0x1E) \<or> c = 0x85 \<or>
      c = 0x2028 \<or> c = 0x2029)"

text \<open>
  \<open>splitlines_from cur s\<close>: \<open>cur\<close> holds the code points of the line being read, last
  one first. A line is produced at each boundary, and at the end of the text when
  code points are pending; so a final boundary opens no further line.
\<close>

fun splitlines_from :: "pystr \<Rightarrow> pystr \<Rightarrow> pystr list" where
  "splitlines_from cur [] = (if cur = [] then [] else [rev cur])"
| "splitlines_from cur [c] =
     (if is_linebreak c then [rev cur] else [rev (c # cur)])"
| "splitlines_from cur (c # d # cs) =
     (if c = 0x0D \<and> d = 0x0A then rev cur # splitlines_from [] cs
      else if is_linebreak c then rev cur # splitlines_from [] (d # cs)
      else splitlines_from (c # cur) (d # cs))"

definition splitlines :: "pystr \<Rightarrow> pystr list" where
  "splitlines s = splitlines_from [] s"

text \<open>\<^verbatim>\<open>str(n)\<close> for an integer: its decimal digits.\<close>

fun str_nat :: "nat \<Rightarrow> pystr" where
  "str_nat n = (if n < 10 then [48 + n] else str_nat (n div 10) @ [48 + n mod 10])"

declare str_nat.simps [simp del]

definition str_int :: "int \<Rightarrow> pystr" where
  "str_int i = (if i < 0 then 0x2D # str_nat (nat (- i)) else str_nat (nat i))"

text \<open>\<^verbatim>\<open>s.split(sep)\<close> with a separator of one code point.\<close>

primrec split_from :: "codepoint \<Rightarrow> pystr \<Rightarrow> pystr \<Rightarrow> pystr list" where
  "split_from sep cur [] = [rev cur]"
| "split_from sep cur (c # cs) =
     (if c = sep then rev cur # split_from sep [] cs else split_from sep (c # cur) cs)"

definition split :: "pystr \<Rightarrow> codepoint \<Rightarrow> pystr list" where
  "split s sep = split_from sep [] s"

text \<open>\<^verbatim>\<open>c.isascii() and c.isdigit()\<close>\<close>

definition is_digit :: "codepoint \<Rightarrow> bool" where
  "is_digit c = (0x30 \<le> c \<and> c \<le> 0x39)"

text \<open>\<^verbatim>\<open>int(s, 10)\<close> on a string of ASCII digits.\<close>

definition int_of_digits :: "pystr \<Rightarrow> nat" where
  "int_of_digits s = foldl (\<lambda>n c. 10 * n + (c - 0x30)) 0 s"

text \<open>
  Case mapping on ASCII text. \<open>ascii_lower\<close> is \<^verbatim>\<open>bytes.lower()\<close>, which maps the
  letters \<^verbatim>\<open>A\<close> to \<^verbatim>\<open>Z\<close> only, and \<open>ascii_capitalize\<close> gives the first code point in
  upper case and the others in lower case. On a \<^verbatim>\<open>str\<close> whose code points are all
  below 128 they are \<^verbatim>\<open>str.lower()\<close> and \<^verbatim>\<open>str.capitalize()\<close>.
\<close>

definition is_ascii :: "pystr \<Rightarrow> bool" where
  "is_ascii s = list_all (\<lambda>c. c < 128) s"

definition ascii_lower :: "pystr \<Rightarrow> pystr" where
  "ascii_lower s = map (\<lambda>c. if 0x41 \<le> c \<and> c \<le> 0x5A then c + 32 else c) s"

definition ascii_capitalize :: "pystr \<Rightarrow> pystr" where
  "ascii_capitalize s =
     (case s of
        [] \<Rightarrow> []
      | c # cs \<Rightarrow> (if 0x61 \<le> c \<and> c \<le> 0x7A then c - 32 else c) # ascii_lower cs)"

section \<open>The collaborators\<close>

text \<open>
  One response of the HTTP client: its effective URL \<^verbatim>\<open>str(response.url)\<close>, its status
  code and its headers, as the pairs that \<^verbatim>\<open>response.headers.items()\<close> yields, one pair
  for each header name.
\<close>

record response =
  resp_url :: pystr
  status_code :: int
  resp_headers :: "(pystr \<times> pystr) list"

text \<open>
  The exceptions, instances of \<^verbatim>\<open>Exception\<close>, as the handler of the walk tells them
  apart. \<open>RequestError\<close> stands for a \<^verbatim>\<open>httpx.RequestError\<close> that is no
  \<^verbatim>\<open>httpx.TimeoutException\<close>, and \<open>PyException msg\<close> for an exception of any other
  class (a \<^verbatim>\<open>ValueError\<close>, a \<^verbatim>\<open>UnicodeError\<close>, a plain \<^verbatim>\<open>Exception\<close>), \<open>msg\<close> being
  its \<^verbatim>\<open>str(e)\<close>.
\<close>

datatype exn =
    TimeoutException
  | HTTPStatusError response
  | RequestError
  | PyException pystr

datatype get_result = Got response | Raised exn

text \<open>
  The outcome of \<^verbatim>\<open>socket.gethostbyname\<close>: an address; \<open>Failed\<close>, when it raises
  \<^verbatim>\<open>socket.gaierror\<close> or \<^verbatim>\<open>TypeError\<close>, the two exceptions that \<^verbatim>\<open>resolve_ip_async\<close>
  catches; or \<open>Raises e\<close>, when it raises anything else, as the \<^verbatim>\<open>UnicodeError\<close> for a
  name with an empty label.
\<close>

datatype lookup = Resolved pystr | Failed | Raises exn

text \<open>
  What the program reaches outside itself is a parameter of the model:
  \<^item> \<open>client_get k u\<close>: the outcome of the \<open>k\<close>-th request of a walk (counted from 0),
    \<^verbatim>\<open>client.get(u, follow_redirects=False, timeout=60.0)\<close>;
  \<^item> \<open>gethostbyname i h\<close>: the outcome of \<^verbatim>\<open>socket.gethostbyname(h)\<close> when \<open>i\<close> lookups
    have been made before it, so that the same name can be answered differently at
    different times;
  \<^item> \<open>urlparse_hostname u\<close>: \<^verbatim>\<open>urlparse(u).hostname\<close>, or the exception it raises (a
    \<^verbatim>\<open>ValueError\<close> for brackets that do not match);
  \<^item> \<open>urljoin b t\<close>: \<^verbatim>\<open>urljoin(b, t)\<close>, or the exception it raises;
  \<^item> \<open>unicode_lower s\<close> and \<open>unicode_capitalize s\<close>: \<^verbatim>\<open>s.lower()\<close> and
    \<^verbatim>\<open>s.capitalize()\<close> for a string \<open>s\<close> with a code point outside ASCII, whose
    result comes from the Unicode tables of the interpreter.
\<close>

record env =
  client_get :: "nat \<Rightarrow> pystr \<Rightarrow> get_result"
  gethostbyname :: "nat \<Rightarrow> pystr \<Rightarrow> lookup"
  urlparse_hostname :: "pystr \<Rightarrow> exn + pystr option"
  urljoin :: "pystr \<Rightarrow> pystr \<Rightarrow> exn + pystr"
  unicode_lower :: "pystr \<Rightarrow> pystr"
  unicode_capitalize :: "pystr \<Rightarrow> pystr"

text \<open>\<^verbatim>\<open>s.lower()\<close> and \<^verbatim>\<open>s.capitalize()\<close>\<close>

definition lower :: "env \<Rightarrow> pystr \<Rightarrow> pystr" where
  "lower E s = (if is_ascii s then ascii_lower s else unicode_lower E s)"

definition capitalize :: "env \<Rightarrow> pystr \<Rightarrow> pystr" where
  "capitalize E s = (if is_ascii s then ascii_capitalize s else unicode_capitalize E s)"

text \<open>
  \<^verbatim>\<open>response.is_redirect\<close> and \<^verbatim>\<open>response.raise_for_status()\<close> of httpx (the version
  that has \<^verbatim>\<open>follow_redirects\<close>): a response is a redirect when its status is 3xx, a
  success when it is 2xx, and \<^verbatim>\<open>raise_for_status\<close> raises \<^verbatim>\<open>HTTPStatusError\<close> for
  every response that is not a success.
\<close>

definition is_redirect :: "response \<Rightarrow> bool" where
  "is_redirect r = (300 \<le> status_code r \<and> status_code r \<le> 399)"

definition is_success :: "response \<Rightarrow> bool" where
  "is_success r = (200 \<le> status_code r \<and> status_code r \<le> 299)"

definition raise_for_status :: "response \<Rightarrow> exn + unit" where
  "raise_for_status r = (if is_success r then Inr () else Inl (HTTPStatusError r))"

text \<open>
  \<^verbatim>\<open>response.headers.get(name)\<close>: header names are compared in their lower-cased
  bytes.
\<close>

definition headers_get :: "(pystr \<times> pystr) list \<Rightarrow> pystr \<Rightarrow> pystr option" where
  "headers_get hs name = map_of (map (\<lambda>(k, v). (ascii_lower k, v)) hs) (ascii_lower name)"

section \<open>Name resolution and the address blocks\<close>

definition AKAMAI_IP_RANGES :: "pystr list" where
  "AKAMAI_IP_RANGES = [ascii ''23.192.0.0/11'', ascii ''104.64.0.0/10'', ascii ''184.24.0.0/13'']"

text \<open>
  The process-wide \<^verbatim>\<open>ip_cache\<close>, together with the log of the calls made to
  \<^verbatim>\<open>socket.gethostbyname\<close>, latest call last.
\<close>

record resolver =
  ip_cache :: "pystr \<rightharpoonup> pystr"
  lookups :: "pystr list"

text \<open>
  \<^verbatim>\<open>resolve_ip_async\<close>. The hostname is \<open>None\<close> or a string; \<^verbatim>\<open>not hostname\<close> holds
  for \<open>None\<close> and for the empty string. Only a successful lookup is stored; an
  exception that the \<^verbatim>\<open>except\<close> clause of line 48 does not catch leaves the function.
\<close>

definition resolve_ip_async ::
  "env \<Rightarrow> pystr option \<Rightarrow> resolver \<Rightarrow> (exn + pystr option) \<times> resolver" where
  "resolve_ip_async E hostname s =
     (case hostname of
        None \<Rightarrow> (Inr None, s)
      | Some h \<Rightarrow>
          if h = [] then (Inr None, s)
          else (case ip_cache s h of
                  Some ip \<Rightarrow> (Inr (Some ip), s)
                | None \<Rightarrow>
                    (case gethostbyname E (length (lookups s)) h of
                       Resolved ip \<Rightarrow>
                         (Inr (Some ip),
                          s\<lparr>ip_cache := (ip_cache s)(h \<mapsto> ip), lookups := lookups s @ [h]\<rparr>)
                     | Failed \<Rightarrow> (Inr None, s\<lparr>lookups := lookups s @ [h]\<rparr>)
                     | Raises e \<Rightarrow> (Inl e, s\<lparr>lookups := lookups s @ [h]\<rparr>))))"

text \<open>
  \<^verbatim>\<open>ipaddress\<close>: an IPv4 address is four decimal octets separated by dots, each of one
  to three ASCII digits, at most 255 and without a leading zero. \<open>None\<close> stands for
  \<^verbatim>\<open>ValueError\<close>.
\<close>

definition parse_octet :: "pystr \<Rightarrow> nat option" where
  "parse_octet octet_str =
     (if octet_str = [] then None
      else if \<not> list_all is_digit octet_str then None
      else if length octet_str > 3 then None
      else if octet_str \<noteq> [0x30] \<and> hd octet_str = 0x30 then None
      else (let octet_int = int_of_digits octet_str
            in if octet_int > 255 then None else Some octet_int))"

definition ipv4_int :: "pystr \<Rightarrow> nat option" where
  "ipv4_int ip_str =
     (case map parse_octet (split ip_str 0x2E) of
        [Some a, Some b, Some c, Some d] \<Rightarrow> Some (((a * 256 + b) * 256 + c) * 256 + d)
      | _ \<Rightarrow> None)"

text \<open>
  \<^verbatim>\<open>ipaddress.ip_network(cidr)\<close> for an IPv4 block written as address, slash and
  prefix length, as the three blocks of the table are: the network address and the
  netmask as integers; host bits set in the address are a \<^verbatim>\<open>ValueError\<close>.
\<close>

definition ip_network :: "pystr \<Rightarrow> (nat \<times> nat) option" where
  "ip_network cidr =
     (case split cidr 0x2F of
        [a, p] \<Rightarrow>
          (case ipv4_int a of
             None \<Rightarrow> None
           | Some net \<Rightarrow>
               if p = [] then None
               else if \<not> list_all is_digit p then None
               else if int_of_digits p > 32 then None
               else (let netmask = 2 ^ 32 - 2 ^ (32 - int_of_digits p)
                     in if net AND netmask = net then Some (net, netmask) else None))
      | _ \<Rightarrow> None)"

text \<open>
  The loop of \<^verbatim>\<open>is_akamai_ip\<close> over the blocks. An address that is not IPv4 is in no
  IPv4 block, so \<open>addr\<close> is the integer of an IPv4 address.
\<close>

primrec in_ranges :: "nat \<Rightarrow> pystr list \<Rightarrow> bool" where
  "in_ranges addr [] = False"
| "in_ranges addr (cidr # rest) =
     (case ip_network cidr of
        None \<Rightarrow> False
      | Some (net, netmask) \<Rightarrow> if addr AND netmask = net then True else in_ranges addr rest)"

definition is_akamai_ip :: "pystr option \<Rightarrow> bool" where
  "is_akamai_ip ip =
     (case ip of
        None \<Rightarrow> False
      | Some a \<Rightarrow>
          if a = [] then False
          else (case ipv4_int a of None \<Rightarrow> False | Some addr \<Rightarrow> in_ranges addr AKAMAI_IP_RANGES))"

section \<open>The server fingerprint classifier\<close>

text \<open>
  \<^verbatim>\<open>{k.lower(): v for k, v in headers.items()}\<close>: a later pair replaces an earlier one
  with the same lower-cased name.
\<close>

definition lower_keys :: "env \<Rightarrow> (pystr \<times> pystr) list \<Rightarrow> (pystr \<rightharpoonup> pystr)" where
  "lower_keys E hs = fold (\<lambda>(k, v) m. m(lower E k \<mapsto> v)) hs Map.empty"

text \<open>\<^verbatim>\<open>headers.get(name, "")\<close> on the lower-cased dictionary.\<close>

definition get_or_empty :: "(pystr \<rightharpoonup> pystr) \<Rightarrow> pystr \<Rightarrow> pystr" where
  "get_or_empty m name = (case m name of None \<Rightarrow> [] | Some v \<Rightarrow> v)"

text \<open>The hostname test of the BMW/MINI override.\<close>

definition bmw_or_mini :: "env \<Rightarrow> pystr option \<Rightarrow> bool" where
  "bmw_or_mini E hostname =
     (case hostname of
        None \<Rightarrow> False
      | Some h \<Rightarrow>
          h \<noteq> [] \<and> (contains (lower E h) (ascii ''bmw'') \<or>
                     contains (lower E h) (ascii ''mini'')))"

text \<open>
  The classifier returns a label or the exception that leaves it: the one of
  \<^verbatim>\<open>urlparse\<close> at line 61, raised before any header is looked at, or the one of
  \<^verbatim>\<open>resolve_ip_async\<close> at line 77.
\<close>

definition get_server_name_advanced ::
  "env \<Rightarrow> (pystr \<times> pystr) list \<Rightarrow> pystr \<Rightarrow> resolver \<Rightarrow> (exn + pystr) \<times> resolver" where
  "get_server_name_advanced E headers0 url s =
     (let headers = lower_keys E headers0
      in case urlparse_hostname E url of
           Inl e \<Rightarrow> (Inl e, s)
         | Inr hostname \<Rightarrow>
             if bmw_or_mini E hostname \<and> headers (ascii ''cache-control'') \<noteq> None
             then (Inr (ascii ''Apache (AEM)''), s)
             else
               (let server_value = lower E (get_or_empty headers (ascii ''server''))
                in if server_value \<noteq> [] then
                     (if contains server_value (ascii ''akamai'') \<or>
                         contains server_value (ascii ''ghost'')
                        then (Inr (ascii ''Akamai''), s)
                      else if contains server_value (ascii ''apache'')
                        then (Inr (ascii ''Apache (AEM)''), s)
                      else (Inr (capitalize E server_value), s))
                   else
                     (let server_timing = get_or_empty headers (ascii ''server-timing'');
                          has_akamai_cache =
                            (contains server_timing (ascii ''cdn-cache; desc=HIT'') \<or>
                             contains server_timing (ascii ''cdn-cache; desc=MISS''));
                          has_akamai_request_id =
                            (headers (ascii ''x-akamai-request-id'') \<noteq> None);
                          has_dispatcher =
                            (headers (ascii ''x-dispatcher'') \<noteq> None \<or>
                             headers (ascii ''x-aem-instance'') \<noteq> None);
                          has_aem_paths =
                            ((case headers (ascii ''link'') of
                                None \<Rightarrow> False
                              | Some v \<Rightarrow> contains v (ascii ''/etc.clientlibs'')) \<or>
                             (case headers (ascii ''baqend-tags'') of
                                None \<Rightarrow> False
                              | Some v \<Rightarrow> contains v (ascii ''/etc.clientlibs'')))
                      in case resolve_ip_async E hostname s of
                           (Inl e, s') \<Rightarrow> (Inl e, s')
                         | (Inr ip, s') \<Rightarrow>
                             (let is_akamai = is_akamai_ip ip
                              in if has_akamai_cache \<or> has_akamai_request_id \<or>
                                    (server_timing \<noteq> [] \<and> is_akamai)
                                 then (if has_aem_paths \<or> has_dispatcher
                                       then (Inr (ascii ''Apache (AEM)''), s')
                                       else (Inr (ascii ''Akamai''), s'))
                                 else if has_dispatcher \<or> has_aem_paths
                                   then (Inr (ascii ''Apache (AEM)''), s')
                                 else if is_akamai then (Inr (ascii ''Akamai''), s')
                                 else (Inr (ascii ''Unknown''), s')))))"

section \<open>The redirect-chain walker\<close>

record hop =
  hop_url :: pystr
  hop_status :: int
  hop_serverName :: pystr

text \<open>
  The \<^verbatim>\<open>"status"\<close> entry of a result: the status of the first hop, \<^verbatim>\<open>None\<close>, or the
  string \<^verbatim>\<open>"Error"\<close>.
\<close>

datatype status_field = Status int | StatusNone | StatusError

record url_result =
  result_url :: pystr
  status :: status_field
  comment :: pystr
  serverName :: pystr
  redirectChain :: "hop list"

definition MAX_REDIRECTS :: nat where
  "MAX_REDIRECTS = 15"

text \<open>
  Lines 99 to 105: the response is classified and its hop record is built. When the
  classifier raises, no record is built. In both cases the classifier may have
  changed the resolver.
\<close>

definition hop_info :: "env \<Rightarrow> response \<Rightarrow> resolver \<Rightarrow> (exn + hop) \<times> resolver" where
  "hop_info E r s =
     (case get_server_name_advanced E (resp_headers r) (resp_url r) s of
        (Inl e, s') \<Rightarrow> (Inl e, s')
      | (Inr server_name, s') \<Rightarrow>
          (Inr \<lparr>hop_url = resp_url r, hop_status = status_code r,
                hop_serverName = server_name\<rparr>, s'))"

text \<open>
  The \<^verbatim>\<open>for _ in range(MAX_REDIRECTS)\<close> loop of \<^verbatim>\<open>check_url_status\<close>, with the number of
  iterations left as first argument after the collaborators. The request made is the
  one numbered by the hops recorded so far. The result is the exception that left the
  loop, if any (\<open>None\<close> after \<^verbatim>\<open>break\<close> and after the last iteration), the chain and
  the state of the resolver. An exception of the classifier leaves the loop before the
  hop is appended; one of \<^verbatim>\<open>urljoin\<close> leaves it after.
\<close>

fun walk_loop ::
  "env \<Rightarrow> nat \<Rightarrow> pystr \<Rightarrow> hop list \<Rightarrow> resolver \<Rightarrow> exn option \<times> hop list \<times> resolver" where
  "walk_loop E 0 current_url redirect_chain s = (None, redirect_chain, s)"
| "walk_loop E (Suc n) current_url redirect_chain s =
     (case client_get E (length redirect_chain) current_url of
        Raised e \<Rightarrow> (Some e, redirect_chain, s)
      | Got r \<Rightarrow>
          (case hop_info E r s of
             (Inl e, s') \<Rightarrow> (Some e, redirect_chain, s')
           | (Inr h, s') \<Rightarrow>
               (let chain' = redirect_chain @ [h]
                in if is_redirect r then
                     (case headers_get (resp_headers r) (ascii ''location'') of
                        None \<Rightarrow>
                          (Some (PyException (ascii ''Redirect missing location header'')),
                           chain', s')
                      | Some target_url \<Rightarrow>
                          if target_url = [] then
                            (Some (PyException (ascii ''Redirect missing location header'')),
                             chain', s')
                          else
                            (case urljoin E (resp_url r) target_url of
                               Inl e \<Rightarrow> (Some e, chain', s')
                             | Inr next_url \<Rightarrow>
                                 if next_url = current_url then
                                   (Some (PyException (ascii ''URL redirects to itself in a loop'')),
                                    chain', s')
                                 else walk_loop E n next_url chain' s'))
                   else
                     (case raise_for_status r of
                        Inl e \<Rightarrow> (Some e, chain', s')
                      | Inr _ \<Rightarrow> (None, chain', s')))))"

text \<open>The result built on the normal path, lines 124 to 130.\<close>

definition success_result :: "pystr \<Rightarrow> hop list \<Rightarrow> url_result" where
  "success_result u redirect_chain =
     \<lparr>result_url = u,
      status = (case redirect_chain of [] \<Rightarrow> StatusNone | h # _ \<Rightarrow> Status (hop_status h)),
      comment = (if length redirect_chain > 1 then ascii ''Redirect Chain'' else ascii ''OK''),
      serverName = (case redirect_chain of [] \<Rightarrow> ascii ''N/A'' | h # _ \<Rightarrow> hop_serverName h),
      redirectChain = redirect_chain\<rparr>"

text \<open>
  The \<^verbatim>\<open>except Exception as e\<close> handler, lines 132 to 151: the comment for the
  exception, and for a \<^verbatim>\<open>HTTPStatusError\<close> one more hop appended to the chain.
\<close>

definition except_handler :: "pystr \<Rightarrow> hop list \<Rightarrow> exn \<Rightarrow> url_result" where
  "except_handler u redirect_chain e =
     (let (comment0, chain') =
            (case e of
               TimeoutException \<Rightarrow> (ascii ''Request timed out after 60s'', redirect_chain)
             | HTTPStatusError r \<Rightarrow>
                 (ascii ''HTTP Error: '' @ str_int (status_code r),
                  redirect_chain @
                    [\<lparr>hop_url = resp_url r, hop_status = status_code r,
                      hop_serverName = ascii ''N/A''\<rparr>])
             | RequestError \<Rightarrow> (ascii ''Request failed (Network/DNS error)'', redirect_chain)
             | PyException msg \<Rightarrow> (msg, redirect_chain))
      in \<lparr>result_url = u,
          status = (case chain' of [] \<Rightarrow> StatusError | h # _ \<Rightarrow> Status (hop_status h)),
          comment = comment0,
          serverName = (case chain' of [] \<Rightarrow> ascii ''N/A'' | h # _ \<Rightarrow> hop_serverName h),
          redirectChain = chain'\<rparr>)"

definition check_url_status :: "env \<Rightarrow> pystr \<Rightarrow> resolver \<Rightarrow> url_result \<times> resolver" where
  "check_url_status E u s =
     (let (raised, redirect_chain, s') = walk_loop E MAX_REDIRECTS u [] s
      in case raised of
           Some e \<Rightarrow> (except_handler u redirect_chain e, s')
         | None \<Rightarrow>
             if length redirect_chain \<ge> MAX_REDIRECTS
             then (except_handler u redirect_chain (PyException (ascii ''Too many redirects'')), s')
             else (success_result u redirect_chain, s'))"

section \<open>The batch orchestrator\<close>

text \<open>
  \<^verbatim>\<open>list(dict.fromkeys(xs))\<close>: the entries in order of first occurrence; \<open>seen\<close> are the
  keys already in the dictionary.
\<close>

primrec fromkeys_from :: "pystr list \<Rightarrow> pystr list \<Rightarrow> pystr list" where
  "fromkeys_from seen [] = []"
| "fromkeys_from seen (x # xs) =
     (if x \<in> set seen then fromkeys_from seen xs else x # fromkeys_from (x # seen) xs)"

definition cleaned_urls :: "pystr list \<Rightarrow> pystr list" where
  "cleaned_urls urls = fromkeys_from [] (map strip (filter (\<lambda>u. strip u \<noteq> []) urls))"

definition with_scheme :: "pystr \<Rightarrow> pystr" where
  "with_scheme u =
     (if \<not> (startswith u (ascii ''http://'') \<or> startswith u (ascii ''https://''))
      then ascii ''https://'' @ u else u)"

text \<open>
  \<^verbatim>\<open>bound_check\<close>: the wait in milliseconds before the walk starts, and the walk's
  result.
\<close>

definition bound_check ::
  "env \<Rightarrow> bool \<Rightarrow> pystr \<Rightarrow> resolver \<Rightarrow> (nat \<times> url_result) \<times> resolver" where
  "bound_check E should_throttle u s =
     (let (r, s') = check_url_status E u s
      in ((if should_throttle then 100 else 0, r), s'))"

text \<open>
  The tasks of one batch. The model runs them one after the other in the order of their
  creation, task \<open>i\<close> meeting the collaborators \<open>Es i\<close>; the interleaving of concurrent
  tasks is not part of the model.
\<close>

fun run_tasks ::
  "(nat \<Rightarrow> env) \<Rightarrow> bool \<Rightarrow> nat \<Rightarrow> pystr list \<Rightarrow> resolver \<Rightarrow> (nat \<times> url_result) list \<times> resolver" where
  "run_tasks Es should_throttle i [] s = ([], s)"
| "run_tasks Es should_throttle i (u # us) s =
     (let (r, s') = bound_check (Es i) should_throttle u s;
          (rs, s'') = run_tasks Es should_throttle (Suc i) us s'
      in (r # rs, s''))"

datatype message = Result url_result | Done

text \<open>
  The sending loop: the \<open>k\<close>-th result is sent when the channel is connected at that
  moment, \<open>connected k\<close>.
\<close>

fun send_results :: "(nat \<Rightarrow> bool) \<Rightarrow> nat \<Rightarrow> url_result list \<Rightarrow> message list" where
  "send_results connected k [] = []"
| "send_results connected k (r # rs) =
     (if connected k then Result r # send_results connected (Suc k) rs
      else send_results connected (Suc k) rs)"

record batch_run =
  should_throttle :: bool
  tasks :: "pystr list"
  waits :: "nat list"
  sent :: "message list"

text \<open>
  \<^verbatim>\<open>websocket_endpoint\<close> from the received text on. Results are sent in the order of the
  tasks; the terminal marker is sent when the channel is still connected after the
  last result.
\<close>

definition websocket_endpoint ::
  "(nat \<Rightarrow> env) \<Rightarrow> (nat \<Rightarrow> bool) \<Rightarrow> pystr \<Rightarrow> resolver \<Rightarrow> batch_run \<times> resolver" where
  "websocket_endpoint Es connected data s =
     (let urls = splitlines data;
          throttle = (length urls > 50);
          task_urls = map with_scheme (cleaned_urls urls);
          (walks, s') = run_tasks Es throttle 0 task_urls s;
          results = map snd walks
      in (\<lparr>should_throttle = throttle,
           tasks = task_urls,
           waits = map fst walks,
           sent = send_results connected 0 results @
                  (if connected (length results) then [Done] else [])\<rparr>, s'))"

section \<open>Walks that follow redirects\<close>

text \<open>
  \<open>follow E k u chain s = Some (u', chain', s')\<close>: a walk that is about to request \<open>u\<close>,
  with \<open>chain\<close> recorded, receives \<open>k\<close> responses in a row that it follows: the
  classifier labels each, each is a redirect whose \<^verbatim>\<open>Location\<close> is not empty, and
  \<^verbatim>\<open>urljoin\<close> resolves it to a URL other than the one just requested. After them the
  walk is about to request \<open>u'\<close>, with \<open>chain'\<close> recorded. The result is \<open>None\<close> when
  one of the \<open>k\<close> requests ends otherwise.
\<close>

fun follow ::
  "env \<Rightarrow> nat \<Rightarrow> pystr \<Rightarrow> hop list \<Rightarrow> resolver \<Rightarrow> (pystr \<times> hop list \<times> resolver) option" where
  "follow E 0 current_url chain s = Some (current_url, chain, s)"
| "follow E (Suc k) current_url chain s =
     (case client_get E (length chain) current_url of
        Raised e \<Rightarrow> None
      | Got r \<Rightarrow>
          (case hop_info E r s of
             (Inl e, s') \<Rightarrow> None
           | (Inr h, s') \<Rightarrow>
               if is_redirect r then
                 (case headers_get (resp_headers r) (ascii ''location'') of
                    None \<Rightarrow> None
                  | Some target_url \<Rightarrow>
                      if target_url = [] then None
                      else
                        (case urljoin E (resp_url r) target_url of
                           Inl e \<Rightarrow> None
                         | Inr next_url \<Rightarrow>
                             if next_url = current_url then None
                             else follow E k next_url (chain @ [h]) s'))
               else None))"

section \<open>When the classifier asks the resolver\<close>

text \<open>
  \<open>consults_dns E hs u s h\<close>: on these headers and this URL, at resolver state \<open>s\<close>, the
  classifier gets as far as \<^verbatim>\<open>resolve_ip_async\<close> and that call looks \<open>h\<close> up:
  \<^verbatim>\<open>urlparse\<close> gives the hostname \<open>h\<close>, neither the override nor the \<^verbatim>\<open>Server\<close> header
  decides, and \<open>h\<close> is not empty and not in the cache.
\<close>

definition consults_dns :: "env \<Rightarrow> (pystr \<times> pystr) list \<Rightarrow> pystr \<Rightarrow> resolver \<Rightarrow> pystr \<Rightarrow> bool" where
  "consults_dns E hs u s h =
     (urlparse_hostname E u = Inr (Some h) \<and>
      \<not> (bmw_or_mini E (Some h) \<and> lower_keys E hs (ascii ''cache-control'') \<noteq> None) \<and>
      lower E (get_or_empty (lower_keys E hs) (ascii ''server'')) = [] \<and>
      h \<noteq> [] \<and> ip_cache s h = None)"

text \<open>
  The label of the third step of the classifier (lines 71 to 87), as a function of the
  lower-cased headers and of the verdict of \<^verbatim>\<open>is_akamai_ip\<close>.
\<close>

definition signals_label :: "(pystr \<rightharpoonup> pystr) \<Rightarrow> bool \<Rightarrow> pystr" where
  "signals_label headers is_akamai =
     (let server_timing = get_or_empty headers (ascii ''server-timing'');
          has_akamai_cache =
            (contains server_timing (ascii ''cdn-cache; desc=HIT'') \<or>
             contains server_timing (ascii ''cdn-cache; desc=MISS''));
          has_akamai_request_id = (headers (ascii ''x-akamai-request-id'') \<noteq> None);
          has_dispatcher =
            (headers (ascii ''x-dispatcher'') \<noteq> None \<or>
             headers (ascii ''x-aem-instance'') \<noteq> None);
          has_aem_paths =
            ((case headers (ascii ''link'') of
                None \<Rightarrow> False | Some v \<Rightarrow> contains v (ascii ''/etc.clientlibs'')) \<or>
             (case headers (ascii ''baqend-tags'') of
                None \<Rightarrow> False | Some v \<Rightarrow> contains v (ascii ''/etc.clientlibs'')))
      in if has_akamai_cache \<or> has_akamai_request_id \<or> (server_timing \<noteq> [] \<and> is_akamai)
         then (if has_aem_paths \<or> has_dispatcher then ascii ''Apache (AEM)''
               else ascii ''Akamai'')
         else if has_dispatcher \<or> has_aem_paths then ascii ''Apache (AEM)''
         else if is_akamai then ascii ''Akamai''
         else ascii ''Unknown'')"

section \<open>Sample collaborators\<close>

text \<open>
  Concrete collaborators on which the theorems below are exercised. Their text is
  ASCII, so that \<open>unicode_lower\<close> and \<open>unicode_capitalize\<close> are never asked.
\<close>

definition empty_resolver :: resolver where
  "empty_resolver = \<lparr>ip_cache = Map.empty, lookups = []\<rparr>"

definition redirect_response :: "pystr \<Rightarrow> pystr \<Rightarrow> response" where
  "redirect_response u t =
     \<lparr>resp_url = u, status_code = 301,
      resp_headers = [(ascii ''server'', ascii ''nginx''), (ascii ''location'', t)]\<rparr>"

definition final_response :: "pystr \<Rightarrow> int \<Rightarrow> response" where
  "final_response u code =
     \<lparr>resp_url = u, status_code = code, resp_headers = [(ascii ''server'', ascii ''nginx'')]\<rparr>"

definition other_page :: "pystr \<Rightarrow> pystr" where
  "other_page u =
     (if u = ascii ''https://a.test/x'' then ascii ''https://a.test/y''
      else ascii ''https://a.test/x'')"

text \<open>
  The sample server, on the host \<^verbatim>\<open>a.test\<close>, answers the first \<open>k\<close> requests of a walk
  with a 301 from the requested page to the other of two pages, and every later
  request with the status \<open>code\<close> and no \<^verbatim>\<open>Location\<close>; all its responses carry
  \<^verbatim>\<open>Server: nginx\<close>.
\<close>

definition sample_env :: "nat \<Rightarrow> int \<Rightarrow> env" where
  "sample_env k code =
     \<lparr>client_get = (\<lambda>i u. if i < k then Got (redirect_response u (other_page u))
                            else Got (final_response u code)),
      gethostbyname = (\<lambda>i h. Failed),
      urlparse_hostname = (\<lambda>u. Inr (Some (ascii ''a.test''))),
      urljoin = (\<lambda>b t. Inr t),
      unicode_lower = (\<lambda>s. s),
      unicode_capitalize = (\<lambda>s. s)\<rparr>"

text \<open>A client whose every request raises \<open>e\<close>.\<close>

definition failing_env :: "exn \<Rightarrow> env" where
  "failing_env e =
     \<lparr>client_get = (\<lambda>i u. Raised e),
      gethostbyname = (\<lambda>i h. Failed),
      urlparse_hostname = (\<lambda>u. Inr (Some (ascii ''a.test''))),
      urljoin = (\<lambda>b t. Inr t),
      unicode_lower = (\<lambda>s. s),
      unicode_capitalize = (\<lambda>s. s)\<rparr>"

text \<open>
  A server that answers every request with the status \<open>code\<close> and no header at all, for
  a URL of which \<^verbatim>\<open>urlparse\<close> gives \<open>host\<close>, with name resolution that gives \<open>dns i\<close> to
  the lookup made after \<open>i\<close> others.
\<close>

definition dns_env :: "exn + pystr option \<Rightarrow> (nat \<Rightarrow> lookup) \<Rightarrow> int \<Rightarrow> env" where
  "dns_env host dns code =
     \<lparr>client_get = (\<lambda>i u. Got \<lparr>resp_url = u, status_code = code, resp_headers = []\<rparr>),
      gethostbyname = (\<lambda>i h. dns i),
      urlparse_hostname = (\<lambda>u. host),
      urljoin = (\<lambda>b t. Inr t),
      unicode_lower = (\<lambda>s. s),
      unicode_capitalize = (\<lambda>s. s)\<rparr>"

text \<open>
  The \<^verbatim>\<open>UnicodeError\<close> of \<^verbatim>\<open>socket.gethostbyname\<close> for a name with an empty label, as
  \<^verbatim>\<open>a..b\<close>, and the \<^verbatim>\<open>ValueError\<close> of \<^verbatim>\<open>urlparse\<close> for \<^verbatim>\<open>http://[\<close>.
\<close>

definition label_empty :: exn where
  "label_empty =
     PyException (ascii ''encoding with 'idna' codec failed (UnicodeError: label empty or too long)'')"

definition invalid_ipv6_url :: exn where
  "invalid_ipv6_url = PyException (ascii ''Invalid IPv6 URL'')"

text \<open>
  Sample batches: the text of a batch from its lines, each line ended by a line feed,
  and \<open>n\<close> distinct host names \<^verbatim>\<open>a\<close>, \<^verbatim>\<open>aa\<close>, \<^verbatim>\<open>aaa\<close> and so on.
\<close>

definition batch_text :: "pystr list \<Rightarrow> pystr" where
  "batch_text ls = concat (map (\<lambda>l. l @ [0x0A]) ls)"

definition a_lines :: "nat \<Rightarrow> pystr list" where
  "a_lines n = map (\<lambda>k. replicate (Suc k) 0x61) [0..<n]"

section \<open>Literals and case mapping\<close>

lemma ascii_eq_iff [simp]: "ascii s = ascii t \<longleftrightarrow> s = t"
  unfolding ascii_def by (rule inj_map_eq_map) (rule inj_of_char)

lemma ascii_Nil_iff [simp]: "ascii s = [] \<longleftrightarrow> s = []" "[] = ascii s \<longleftrightarrow> s = []"
  by (auto simp add: ascii_def)

lemma ascii_append: "ascii (s @ t) = ascii s @ ascii t"
  by (simp add: ascii_def)

lemma ascii_lower_idem: "ascii_lower (ascii_lower s) = ascii_lower s"
  by (simp add: ascii_lower_def)

lemma ascii_lower_Nil_iff: "ascii_lower s = [] \<longleftrightarrow> s = []"
  by (simp add: ascii_lower_def)

lemma is_ascii_lower: "is_ascii s \<Longrightarrow> is_ascii (ascii_lower s)"
  by (induction s) (simp_all add: is_ascii_def ascii_lower_def)

lemma ascii_capitalize_lower: "ascii_capitalize (ascii_lower s) = ascii_capitalize s"
  by (cases s) (auto simp add: ascii_capitalize_def ascii_lower_def)

lemma lower_ascii: "is_ascii s \<Longrightarrow> lower E s = ascii_lower s"
  by (simp add: lower_def)

lemma capitalize_lower_ascii:
  "is_ascii s \<Longrightarrow> capitalize E (lower E s) = ascii_capitalize s"
  by (simp add: lower_def capitalize_def is_ascii_lower ascii_capitalize_lower)

section \<open>The classifier, branch by branch\<close>

lemma classify_unparsed:
  "urlparse_hostname E u = Inl e \<Longrightarrow> get_server_name_advanced E hs u s = (Inl e, s)"
  by (simp add: get_server_name_advanced_def)

lemma classify_override:
  "urlparse_hostname E u = Inr hostname \<Longrightarrow> bmw_or_mini E hostname \<Longrightarrow>
   lower_keys E hs (ascii ''cache-control'') \<noteq> None \<Longrightarrow>
   get_server_name_advanced E hs u s = (Inr (ascii ''Apache (AEM)''), s)"
  by (simp add: get_server_name_advanced_def)

lemma classify_server:
  assumes "urlparse_hostname E u = Inr hostname"
    and "\<not> (bmw_or_mini E hostname \<and> lower_keys E hs (ascii ''cache-control'') \<noteq> None)"
    and "lower E (get_or_empty (lower_keys E hs) (ascii ''server'')) = lv" and "lv \<noteq> []"
  shows "get_server_name_advanced E hs u s =
           (Inr (if contains lv (ascii ''akamai'') \<or> contains lv (ascii ''ghost'')
                 then ascii ''Akamai''
                 else if contains lv (ascii ''apache'') then ascii ''Apache (AEM)''
                 else capitalize E lv), s)"
  using assms by (auto simp add: get_server_name_advanced_def Let_def)

lemma classify_signals:
  assumes "urlparse_hostname E u = Inr hostname"
    and "\<not> (bmw_or_mini E hostname \<and> lower_keys E hs (ascii ''cache-control'') \<noteq> None)"
    and "lower E (get_or_empty (lower_keys E hs) (ascii ''server'')) = []"
  shows "get_server_name_advanced E hs u s =
           (case resolve_ip_async E hostname s of
              (Inl e, s') \<Rightarrow> (Inl e, s')
            | (Inr ip, s') \<Rightarrow> (Inr (signals_label (lower_keys E hs) (is_akamai_ip ip)), s'))"
proof (cases "resolve_ip_async E hostname s")
  case (Pair a s')
  with assms show ?thesis
    by (cases a) (auto simp add: get_server_name_advanced_def signals_label_def Let_def)
qed

lemma signals_label_cases:
  "signals_label m b \<in> {ascii ''Apache (AEM)'', ascii ''Akamai'', ascii ''Unknown''}"
  by (simp add: signals_label_def Let_def)

text \<open>
  The answer of \<^verbatim>\<open>resolve_ip_async\<close>: nothing for no hostname, the cached address, or
  what the lookup gives.
\<close>

lemma resolve_answer:
  "fst (resolve_ip_async E hostname s) =
     (case hostname of
        None \<Rightarrow> Inr None
      | Some h \<Rightarrow>
          if h = [] then Inr None
          else (case ip_cache s h of
                  Some ip \<Rightarrow> Inr (Some ip)
                | None \<Rightarrow>
                    (case gethostbyname E (length (lookups s)) h of
                       Resolved ip \<Rightarrow> Inr (Some ip) | Failed \<Rightarrow> Inr None | Raises e \<Rightarrow> Inl e)))"
  by (simp add: resolve_ip_async_def split: option.splits lookup.splits)

lemma hop_info_labelled:
  "hop_info E r s = (Inr h, s') \<longleftrightarrow>
     (\<exists>server_name. get_server_name_advanced E (resp_headers r) (resp_url r) s = (Inr server_name, s') \<and>
        h = \<lparr>hop_url = resp_url r, hop_status = status_code r, hop_serverName = server_name\<rparr>)"
  by (cases "get_server_name_advanced E (resp_headers r) (resp_url r) s")
     (auto simp add: hop_info_def split: sum.splits)

lemma hop_info_raised:
  "hop_info E r s = (Inl e, s') \<longleftrightarrow>
     get_server_name_advanced E (resp_headers r) (resp_url r) s = (Inl e, s')"
  by (cases "get_server_name_advanced E (resp_headers r) (resp_url r) s")
     (auto simp add: hop_info_def split: sum.splits)

section \<open>The loop of the walker, step by step\<close>

lemma walk_follow:
  "follow E k cur chain s = Some (cur', chain', s') \<Longrightarrow>
   walk_loop E (k + n) cur chain s = walk_loop E n cur' chain' s'"
proof (induction k arbitrary: cur chain s)
  case 0
  then show ?case by simp
next
  case (Suc k)
  then show ?case
    by (auto simp add: Let_def split: get_result.splits option.splits if_splits prod.splits sum.splits)
qed

lemma follow_step:
  assumes "follow E (Suc k) cur chain s = Some (cur', chain', s')"
  obtains r h s1 next_url where "client_get E (length chain) cur = Got r"
    and "hop_info E r s = (Inr h, s1)"
    and "follow E k next_url (chain @ [h]) s1 = Some (cur', chain', s')"
  using assms
  by (auto split: get_result.splits option.splits if_splits prod.splits sum.splits)

lemma follow_extends:
  "follow E k cur chain s = Some (cur', chain', s') \<Longrightarrow>
   length chain' = length chain + k \<and> take (length chain) chain' = chain"
proof (induction k arbitrary: cur chain s)
  case 0
  then show ?case by simp
next
  case (Suc k)
  from Suc.prems obtain r h s1 next_url where
    step: "follow E k next_url (chain @ [h]) s1 = Some (cur', chain', s')"
    by (rule follow_step)
  from Suc.IH [OF step]
  have len: "length chain' = length (chain @ [h]) + k"
    and tk: "take (length (chain @ [h])) chain' = chain @ [h]"
    by simp_all
  from tk have "take (length chain) (take (Suc (length chain)) chain') = take (length chain) (chain @ [h])"
    by simp
  then have "take (length chain) chain' = chain"
    by (simp add: min_def)
  with len show ?case by simp
qed

lemma follow_first:
  assumes "follow E (Suc k) u [] s = Some (cur', chain', s')"
    and "client_get E 0 u = Got r0"
  shows "\<exists>h0 s0 rest. hop_info E r0 s = (Inr h0, s0) \<and> chain' = h0 # rest"
proof -
  from assms(1) obtain r h s1 next_url where get: "client_get E (length ([] :: hop list)) u = Got r"
    and h: "hop_info E r s = (Inr h, s1)"
    and step: "follow E k next_url ([] @ [h]) s1 = Some (cur', chain', s')"
    by (rule follow_step)
  from get assms(2) have r: "r = r0" by simp
  from follow_extends [OF step] have "take 1 chain' = [h]"
    by simp
  then obtain rest where "chain' = h # rest"
    by (cases chain') auto
  with h r show ?thesis by blast
qed

lemma walk_final_ok:
  "client_get E (length chain) cur = Got r \<Longrightarrow> hop_info E r s = (Inr h, s') \<Longrightarrow>
   \<not> is_redirect r \<Longrightarrow> is_success r \<Longrightarrow>
   walk_loop E (Suc n) cur chain s = (None, chain @ [h], s')"
  by (simp add: raise_for_status_def)

lemma walk_final_error:
  "client_get E (length chain) cur = Got r \<Longrightarrow> hop_info E r s = (Inr h, s') \<Longrightarrow>
   \<not> is_redirect r \<Longrightarrow> \<not> is_success r \<Longrightarrow>
   walk_loop E (Suc n) cur chain s = (Some (HTTPStatusError r), chain @ [h], s')"
  by (simp add: raise_for_status_def)

lemma walk_missing_location:
  "client_get E (length chain) cur = Got r \<Longrightarrow> hop_info E r s = (Inr h, s') \<Longrightarrow>
   is_redirect r \<Longrightarrow> headers_get (resp_headers r) (ascii ''location'') = None \<Longrightarrow>
   walk_loop E (Suc n) cur chain s =
     (Some (PyException (ascii ''Redirect missing location header'')), chain @ [h], s')"
  by simp

lemma walk_unlabelled:
  "client_get E (length chain) cur = Got r \<Longrightarrow> hop_info E r s = (Inl e, s') \<Longrightarrow>
   walk_loop E (Suc n) cur chain s = (Some e, chain, s')"
  by simp

lemma walk_raised:
  "client_get E (length chain) cur = Raised e \<Longrightarrow>
   walk_loop E (Suc n) cur chain s = (Some e, chain, s)"
  by simp

lemma walk_after_follow:
  assumes "follow E k u [] s = Some (cur, chain, s1)" and "k \<le> 15"
  shows "walk_loop E MAX_REDIRECTS u [] s = walk_loop E (15 - k) cur chain s1"
    and "length chain = k"
proof -
  from assms(2) have "k + (15 - k) = 15" by simp
  with walk_follow [OF assms(1), of "15 - k"]
  show "walk_loop E MAX_REDIRECTS u [] s = walk_loop E (15 - k) cur chain s1"
    by (simp add: MAX_REDIRECTS_def)
  from follow_extends [OF assms(1)] show "length chain = k" by simp
qed

lemma check_final_ok:
  assumes "follow E k u [] s = Some (cur, chain, s1)" and "k < 15"
    and "client_get E k cur = Got r" and "hop_info E r s1 = (Inr h, s2)"
    and "\<not> is_redirect r" and "is_success r"
  shows "check_url_status E u s =
           (if k < 14 then success_result u (chain @ [h])
            else except_handler u (chain @ [h]) (PyException (ascii ''Too many redirects'')), s2)"
proof -
  from assms(2) obtain m where m: "15 - k = Suc m" by (cases "15 - k") auto
  from walk_after_follow [OF assms(1)] assms(2)
  have loop: "walk_loop E MAX_REDIRECTS u [] s = walk_loop E (15 - k) cur chain s1"
    and len: "length chain = k" by simp_all
  from assms(3) len have "client_get E (length chain) cur = Got r" by simp
  from walk_final_ok [OF this assms(4,5,6)] loop m
  have "walk_loop E MAX_REDIRECTS u [] s = (None, chain @ [h], s2)"
    by simp
  with len assms(2) show ?thesis
    by (auto simp add: check_url_status_def MAX_REDIRECTS_def)
qed

lemma check_final_error:
  assumes "follow E k u [] s = Some (cur, chain, s1)" and "k < 15"
    and "client_get E k cur = Got r" and "hop_info E r s1 = (Inr h, s2)"
    and "\<not> is_redirect r" and "\<not> is_success r"
  shows "check_url_status E u s = (except_handler u (chain @ [h]) (HTTPStatusError r), s2)"
proof -
  from assms(2) obtain m where m: "15 - k = Suc m" by (cases "15 - k") auto
  from walk_after_follow [OF assms(1)] assms(2)
  have loop: "walk_loop E MAX_REDIRECTS u [] s = walk_loop E (15 - k) cur chain s1"
    and len: "length chain = k" by simp_all
  from assms(3) len have "client_get E (length chain) cur = Got r" by simp
  from walk_final_error [OF this assms(4,5,6)] loop m
  have "walk_loop E MAX_REDIRECTS u [] s = (Some (HTTPStatusError r), chain @ [h], s2)"
    by simp
  then show ?thesis
    by (simp add: check_url_status_def)
qed

lemma check_missing_location:
  assumes "follow E k u [] s = Some (cur, chain, s1)" and "k < 15"
    and "client_get E k cur = Got r" and "hop_info E r s1 = (Inr h, s2)"
    and "is_redirect r" and "headers_get (resp_headers r) (ascii ''location'') = None"
  shows "check_url_status E u s =
           (except_handler u (chain @ [h])
              (PyException (ascii ''Redirect missing location header'')), s2)"
proof -
  from assms(2) obtain m where m: "15 - k = Suc m" by (cases "15 - k") auto
  from walk_after_follow [OF assms(1)] assms(2)
  have loop: "walk_loop E MAX_REDIRECTS u [] s = walk_loop E (15 - k) cur chain s1"
    and len: "length chain = k" by simp_all
  from assms(3) len have "client_get E (length chain) cur = Got r" by simp
  from walk_missing_location [OF this assms(4,5,6)] loop m
  have "walk_loop E MAX_REDIRECTS u [] s =
          (Some (PyException (ascii ''Redirect missing location header'')), chain @ [h], s2)"
    by simp
  then show ?thesis
    by (simp add: check_url_status_def)
qed

lemma check_unlabelled:
  assumes "follow E k u [] s = Some (cur, chain, s1)" and "k < 15"
    and "client_get E k cur = Got r" and "hop_info E r s1 = (Inl e, s2)"
  shows "check_url_status E u s = (except_handler u chain e, s2)"
proof -
  from assms(2) obtain m where m: "15 - k = Suc m" by (cases "15 - k") auto
  from walk_after_follow [OF assms(1)] assms(2)
  have loop: "walk_loop E MAX_REDIRECTS u [] s = walk_loop E (15 - k) cur chain s1"
    and len: "length chain = k" by simp_all
  from assms(3) len have "client_get E (length chain) cur = Got r" by simp
  from walk_unlabelled [OF this assms(4)] loop m
  have "walk_loop E MAX_REDIRECTS u [] s = (Some e, chain, s2)"
    by simp
  then show ?thesis
    by (simp add: check_url_status_def)
qed

lemma first_hop:
  assumes "follow E k u [] s = Some (cur, chain, s1)"
    and "client_get E k cur = Got r" and "hop_info E r s1 = (Inr h, s2)"
  shows "\<exists>r0 h0 s0 rest. client_get E 0 u = Got r0 \<and> hop_info E r0 s = (Inr h0, s0) \<and>
           chain @ [h] = h0 # rest"
proof (cases k)
  case 0
  with assms show ?thesis by simp
next
  case (Suc j)
  with assms(1) obtain r0 where get: "client_get E 0 u = Got r0"
    by (auto split: get_result.splits)
  from follow_first [OF assms(1) [unfolded Suc] get]
  obtain h0 s0 rest where "hop_info E r0 s = (Inr h0, s0)" "chain = h0 # rest" by blast
  with get show ?thesis by simp
qed

lemma walk_loop_length:
  "walk_loop E n cur chain s = (raised, chain', s') \<Longrightarrow> length chain' \<le> length chain + n"
proof (induction n arbitrary: cur chain s)
  case 0
  then show ?case by simp
next
  case (Suc n)
  show ?case
  proof (cases "client_get E (length chain) cur")
    case (Raised e)
    with Suc.prems show ?thesis by simp
  next
    case (Got r)
    obtain a s1 where a: "hop_info E r s = (a, s1)" by (cases "hop_info E r s")
    show ?thesis
    proof (cases a)
      case (Inl e)
      with Suc.prems Got a show ?thesis by simp
    next
      case (Inr h)
      show ?thesis
      proof (cases "is_redirect r \<and>
          (\<exists>t next_url. headers_get (resp_headers r) (ascii ''location'') = Some t \<and> t \<noteq> [] \<and>
             urljoin E (resp_url r) t = Inr next_url \<and> next_url \<noteq> cur)")
        case True
        then obtain t next_url where
          t: "headers_get (resp_headers r) (ascii ''location'') = Some t" "t \<noteq> []"
            "urljoin E (resp_url r) t = Inr next_url" "next_url \<noteq> cur"
          and red: "is_redirect r" by blast
        with Suc.prems Got a Inr
        have "walk_loop E n next_url (chain @ [h]) s1 = (raised, chain', s')"
          by simp
        from Suc.IH [OF this] show ?thesis by simp
      next
        case False
        with Suc.prems Got a Inr have "chain' = chain @ [h]"
          by (auto simp add: Let_def split: option.splits if_splits sum.splits)
        then show ?thesis by simp
      qed
    qed
  qed
qed

section \<open>The sample collaborators\<close>

lemma sample_text:
  "is_ascii (ascii ''nginx'')" "ascii_lower (ascii ''nginx'') = ascii ''nginx''"
  "ascii_capitalize (ascii ''nginx'') = ascii ''Nginx''"
  "ascii_lower (ascii ''server'') = ascii ''server''"
  "ascii_lower (ascii ''location'') = ascii ''location''"
  "is_ascii (ascii ''server'')" "is_ascii (ascii ''location'')"
  "is_ascii (ascii ''a.test'')" "ascii_lower (ascii ''a.test'') = ascii ''a.test''"
  "is_ascii (ascii ''cdn.test'')" "ascii_lower (ascii ''cdn.test'') = ascii ''cdn.test''"
  "is_ascii (ascii ''a..b'')" "ascii_lower (ascii ''a..b'') = ascii ''a..b''"
  by (simp_all add: ascii_def is_ascii_def ascii_lower_def ascii_capitalize_def)

lemma sample_contains:
  "\<not> contains (ascii ''nginx'') (ascii ''akamai'')" "\<not> contains (ascii ''nginx'') (ascii ''ghost'')"
  "\<not> contains (ascii ''nginx'') (ascii ''apache'')"
  "\<not> contains (ascii ''a.test'') (ascii ''bmw'')" "\<not> contains (ascii ''a.test'') (ascii ''mini'')"
  "\<not> contains (ascii ''cdn.test'') (ascii ''bmw'')" "\<not> contains (ascii ''cdn.test'') (ascii ''mini'')"
  "\<not> contains (ascii ''a..b'') (ascii ''bmw'')" "\<not> contains (ascii ''a..b'') (ascii ''mini'')"
  by (simp_all add: ascii_def)

lemma sample_env_fields:
  "urlparse_hostname (sample_env k code) u = Inr (Some (ascii ''a.test''))"
  "urljoin (sample_env k code) b t = Inr t"
  "client_get (sample_env k code) i u =
     (if i < k then Got (redirect_response u (other_page u)) else Got (final_response u code))"
  by (simp_all add: sample_env_def)

lemma sample_no_override: "\<not> bmw_or_mini (sample_env k code) (Some (ascii ''a.test''))"
  by (simp add: bmw_or_mini_def lower_def sample_text sample_contains)

lemma sample_server:
  "lower (sample_env k code) (get_or_empty (lower_keys (sample_env k code) (resp_headers (redirect_response u t)))
     (ascii ''server'')) = ascii ''nginx''"
  "lower (sample_env k code) (get_or_empty (lower_keys (sample_env k code) (resp_headers (final_response u c)))
     (ascii ''server'')) = ascii ''nginx''"
  by (simp_all add: redirect_response_def final_response_def lower_keys_def get_or_empty_def
      lower_def sample_text)

lemma sample_label:
  "get_server_name_advanced (sample_env k code) (resp_headers (redirect_response u t)) u' s =
     (Inr (ascii ''Nginx''), s)"
  "get_server_name_advanced (sample_env k code) (resp_headers (final_response u c)) u' s =
     (Inr (ascii ''Nginx''), s)"
proof -
  have ne: "ascii ''nginx'' \<noteq> []" by simp
  have cap: "capitalize (sample_env k code) (ascii ''nginx'') = ascii ''Nginx''"
    by (simp add: capitalize_def sample_text)
  from classify_server [OF sample_env_fields(1) _ sample_server(1) ne, where s = s and u = u']
  show "get_server_name_advanced (sample_env k code) (resp_headers (redirect_response u t)) u' s =
     (Inr (ascii ''Nginx''), s)"
    by (simp add: sample_no_override sample_contains cap)
  from classify_server [OF sample_env_fields(1) _ sample_server(2) ne, where s = s and u = u']
  show "get_server_name_advanced (sample_env k code) (resp_headers (final_response u c)) u' s =
     (Inr (ascii ''Nginx''), s)"
    by (simp add: sample_no_override sample_contains cap)
qed

lemma sample_fields:
  "resp_url (final_response u c) = u" "status_code (final_response u c) = c"
  "resp_url (redirect_response u t) = u" "status_code (redirect_response u t) = 301"
  by (simp_all add: final_response_def redirect_response_def)

lemma sample_hop_redirect:
  "hop_info (sample_env k code) (redirect_response u t) s =
     (Inr \<lparr>hop_url = u, hop_status = 301, hop_serverName = ascii ''Nginx''\<rparr>, s)"
  by (simp add: hop_info_def sample_label sample_fields)

lemma sample_hop_final:
  "hop_info (sample_env k code) (final_response u c) s =
     (Inr \<lparr>hop_url = u, hop_status = c, hop_serverName = ascii ''Nginx''\<rparr>, s)"
  by (simp add: hop_info_def sample_label sample_fields)

lemma sample_location:
  "headers_get (resp_headers (redirect_response u t)) (ascii ''location'') = Some t"
  "headers_get (resp_headers (final_response u c)) (ascii ''location'') = None"
  by (simp_all add: headers_get_def redirect_response_def final_response_def sample_text)

lemma other_page_differs: "other_page u \<noteq> u" "other_page u \<noteq> []"
  by (simp_all add: other_page_def)

lemma sample_follow_step:
  "length chain < k \<Longrightarrow>
   follow (sample_env k code) (Suc j) u chain s =
   follow (sample_env k code) j (other_page u)
     (chain @ [\<lparr>hop_url = u, hop_status = 301, hop_serverName = ascii ''Nginx''\<rparr>]) s"
proof -
  assume lt: "length chain < k"
  have get: "client_get (sample_env k code) (length chain) u = Got (redirect_response u (other_page u))"
    using lt by (simp add: sample_env_fields)
  have red: "is_redirect (redirect_response u (other_page u))"
    by (simp add: is_redirect_def redirect_response_def)
  show ?thesis
    by (simp add: get red sample_env_fields(2) sample_fields sample_location other_page_differs
        sample_hop_redirect)
qed

lemma sample_follow:
  "length chain + j \<le> k \<Longrightarrow>
   \<exists>cur chain'. follow (sample_env k code) j u chain s = Some (cur, chain', s)"
proof (induction j arbitrary: u chain)
  case 0
  then show ?case by simp
next
  case (Suc j)
  then have "length chain < k" by simp
  from sample_follow_step [OF this]
  have "follow (sample_env k code) (Suc j) u chain s =
        follow (sample_env k code) j (other_page u)
          (chain @ [\<lparr>hop_url = u, hop_status = 301, hop_serverName = ascii ''Nginx''\<rparr>]) s" .
  moreover from Suc.prems
  have "length (chain @ [\<lparr>hop_url = u, hop_status = 301, hop_serverName = ascii ''Nginx''\<rparr>]) + j \<le> k"
    by simp
  from Suc.IH [OF this]
  obtain cur chain' where
    "follow (sample_env k code) j (other_page u)
       (chain @ [\<lparr>hop_url = u, hop_status = 301, hop_serverName = ascii ''Nginx''\<rparr>]) s = Some (cur, chain', s)"
    by blast
  ultimately show ?case by simp
qed

lemma sample_final:
  "\<not> i < k \<Longrightarrow> client_get (sample_env k code) i u = Got (final_response u code)"
  by (simp add: sample_env_def)

lemma str_int_examples:
  "str_int 404 = ascii ''404''" "str_int 101 = ascii ''101''"
  by (simp_all add: str_int_def str_nat.simps ascii_def)

lemma sample_statuses:
  "is_success (final_response u 200)" "\<not> is_redirect (final_response u 200)"
  "\<not> is_success (final_response u 404)" "\<not> is_redirect (final_response u 404)"
  "\<not> is_success (final_response u 101)" "\<not> is_redirect (final_response u 101)"
  "is_redirect (final_response u 302)"
  by (simp_all add: is_success_def is_redirect_def final_response_def)

text \<open>The world of \<open>dns_env\<close>: no header, and a hostname that is looked up.\<close>

lemma dns_env_fields:
  "urlparse_hostname (dns_env host dns code) u = host"
  "gethostbyname (dns_env host dns code) i h = dns i"
  "client_get (dns_env host dns code) i u = Got \<lparr>resp_url = u, status_code = code, resp_headers = []\<rparr>"
  by (simp_all add: dns_env_def)

lemma empty_headers: "lower_keys E [] k = None" "get_or_empty (lower_keys E []) k = []"
  "lower E [] = []"
  by (simp_all add: lower_keys_def get_or_empty_def lower_def is_ascii_def ascii_lower_def)

lemma signals_label_empty:
  "signals_label (lower_keys E []) b = (if b then ascii ''Akamai'' else ascii ''Unknown'')"
  by (simp add: signals_label_def empty_headers)

lemma akamai_address: "is_akamai_ip (Some (ascii ''184.24.5.1''))"
  by (simp add: is_akamai_ip_def ipv4_int_def split_def parse_octet_def is_digit_def
      int_of_digits_def AKAMAI_IP_RANGES_def ip_network_def ascii_def)

lemma no_address: "\<not> is_akamai_ip None"
  by (simp add: is_akamai_ip_def)

lemma dns_env_classify:
  "get_server_name_advanced (dns_env (Inr hostname) dns code) [] u s =
     (case resolve_ip_async (dns_env (Inr hostname) dns code) hostname s of
        (Inl e, s') \<Rightarrow> (Inl e, s')
      | (Inr ip, s') \<Rightarrow> (Inr (if is_akamai_ip ip then ascii ''Akamai'' else ascii ''Unknown''), s'))"
  using classify_signals [of "dns_env (Inr hostname) dns code" u hostname "[]" s]
  by (simp add: dns_env_fields empty_headers signals_label_empty split: prod.splits sum.splits)

lemma dns_env_unparsed:
  "get_server_name_advanced (dns_env (Inl e) dns code) hs u s = (Inl e, s)"
  by (simp add: classify_unparsed dns_env_fields)

lemma dns_env_consults:
  "h \<in> {ascii ''cdn.test'', ascii ''a..b''} \<Longrightarrow> ip_cache s h = None \<Longrightarrow>
   consults_dns (dns_env (Inr (Some h)) dns code) [] u s h"
  by (auto simp add: consults_dns_def empty_headers dns_env_fields)

lemma dns_env_lookup:
  "h \<noteq> [] \<Longrightarrow> ip_cache s h = None \<Longrightarrow>
   resolve_ip_async (dns_env host dns code) (Some h) s =
     (case dns (length (lookups s)) of
        Resolved ip \<Rightarrow> (Inr (Some ip), s\<lparr>ip_cache := (ip_cache s)(h \<mapsto> ip), lookups := lookups s @ [h]\<rparr>)
      | Failed \<Rightarrow> (Inr None, s\<lparr>lookups := lookups s @ [h]\<rparr>)
      | Raises e \<Rightarrow> (Inl e, s\<lparr>lookups := lookups s @ [h]\<rparr>))"
  by (simp add: resolve_ip_async_def dns_env_fields)

section \<open>The batch, line by line\<close>

lemma fromkeys_from_length: "length (fromkeys_from seen xs) \<le> length xs"
  by (induction xs arbitrary: seen) (auto intro: le_SucI)

lemma cleaned_urls_length: "length (cleaned_urls urls) \<le> length urls"
proof -
  have "length (cleaned_urls urls) \<le> length (filter (\<lambda>u. strip u \<noteq> []) urls)"
    unfolding cleaned_urls_def using fromkeys_from_length [of "[]" "map strip (filter (\<lambda>u. strip u \<noteq> []) urls)"]
    by simp
  also have "\<dots> \<le> length urls" by (rule length_filter_le)
  finally show ?thesis .
qed

lemma run_tasks_waits:
  "map fst (fst (run_tasks Es throttle i us s)) = replicate (length us) (if throttle then 100 else 0)"
proof (induction us arbitrary: i s)
  case Nil
  then show ?case by simp
next
  case (Cons u us)
  obtain r s' where b: "bound_check (Es i) throttle u s = (r, s')" by (cases "bound_check (Es i) throttle u s")
  obtain rs s'' where t: "run_tasks Es throttle (Suc i) us s' = (rs, s'')"
    by (cases "run_tasks Es throttle (Suc i) us s'")
  from b have "fst r = (if throttle then 100 else 0)"
    by (auto simp add: bound_check_def split: prod.splits)
  moreover from Cons.IH [of "Suc i" s'] t
  have "map fst rs = replicate (length us) (if throttle then 100 else 0)" by simp
  ultimately show ?case using b t by simp
qed

lemma endpoint_fields:
  "should_throttle (fst (websocket_endpoint Es connected data s)) = (50 < length (splitlines data))"
  "tasks (fst (websocket_endpoint Es connected data s)) =
     map with_scheme (cleaned_urls (splitlines data))"
  "waits (fst (websocket_endpoint Es connected data s)) =
     map fst (fst (run_tasks Es (50 < length (splitlines data)) 0
       (map with_scheme (cleaned_urls (splitlines data))) s))"
  by (simp_all add: websocket_endpoint_def Let_def split: prod.splits)

lemma strip_blank: "\<forall>c \<in> set l. is_space c \<Longrightarrow> strip l = []"
proof -
  assume "\<forall>c \<in> set l. is_space c"
  then have blank: "dropWhile is_space l = []"
    by simp
  show ?thesis
    unfolding strip_def blank by simp
qed

lemma cleaned_urls_blank:
  "\<forall>l \<in> set urls. \<forall>c \<in> set l. is_space c \<Longrightarrow> cleaned_urls urls = []"
proof -
  assume "\<forall>l \<in> set urls. \<forall>c \<in> set l. is_space c"
  then have "filter (\<lambda>u. strip u \<noteq> []) urls = []"
    by (simp add: strip_blank filter_empty_conv)
  then show ?thesis by (simp add: cleaned_urls_def)
qed

lemma fromkeys_replicate:
  "fromkeys_from seen (replicate n x) = (if x \<in> set seen \<or> n = 0 then [] else [x])"
proof (induction n arbitrary: seen)
  case 0
  show ?case by simp
next
  case (Suc n)
  show ?case by (simp add: Suc.IH)
qed

lemma splitlines_from_line:
  "\<forall>c \<in> set l. \<not> is_linebreak c \<Longrightarrow>
   splitlines_from cur (l @ 0x0A # rest) = (rev cur @ l) # splitlines_from [] rest"
proof (induction l arbitrary: cur)
  case Nil
  show ?case by (cases rest) (simp_all add: is_linebreak_def)
next
  case (Cons c l)
  obtain d cs where tail: "l @ 0x0A # rest = d # cs"
    by (cases "l @ 0x0A # rest") auto
  from Cons.prems have c: "\<not> is_linebreak c" by simp
  then have "c \<noteq> 0x0D" by (auto simp add: is_linebreak_def)
  with c have "splitlines_from cur (c # d # cs) = splitlines_from (c # cur) (d # cs)"
    by simp
  with tail have "splitlines_from cur ((c # l) @ 0x0A # rest) =
                  splitlines_from (c # cur) (l @ 0x0A # rest)"
    by simp
  also from Cons.prems have "\<dots> = (rev (c # cur) @ l) # splitlines_from [] rest"
    by (intro Cons.IH) simp
  finally show ?case by simp
qed

lemma splitlines_batch_text:
  "\<forall>l \<in> set ls. \<forall>c \<in> set l. \<not> is_linebreak c \<Longrightarrow> splitlines (batch_text ls) = ls"
  unfolding splitlines_def batch_text_def
proof (induction ls)
  case Nil
  show ?case by simp
next
  case (Cons l ls)
  then have "splitlines_from [] (l @ 0x0A # concat (map (\<lambda>l. l @ [0x0A]) ls)) =
             (rev [] @ l) # splitlines_from [] (concat (map (\<lambda>l. l @ [0x0A]) ls))"
    by (intro splitlines_from_line) simp
  with Cons show ?case by simp
qed

lemma fromkeys_distinct:
  "distinct xs \<Longrightarrow> set xs \<inter> set seen = {} \<Longrightarrow> fromkeys_from seen xs = xs"
  by (induction xs arbitrary: seen) auto

lemma a_com_text:
  "\<forall>c \<in> set (ascii ''a.com''). \<not> is_linebreak c" "strip (ascii ''a.com'') = ascii ''a.com''"
  "with_scheme (ascii ''a.com'') = ascii ''https://a.com''"
  by (simp_all add: ascii_def is_linebreak_def strip_def is_space_def with_scheme_def startswith_def)

lemma a_lines_facts:
  "length (a_lines n) = n" "distinct (a_lines n)"
  "\<forall>l \<in> set (a_lines n). \<forall>c \<in> set l. \<not> is_linebreak c"
  "\<forall>l \<in> set (a_lines n). strip l = l \<and> l \<noteq> []"
proof -
  show "length (a_lines n) = n" by (simp add: a_lines_def)
  have "inj_on (\<lambda>k. replicate (Suc k) (0x61 :: nat)) (set [0..<n])"
    by (rule inj_onI) (metis length_replicate nat.inject)
  then show "distinct (a_lines n)"
    by (simp add: a_lines_def distinct_map)
  show "\<forall>l \<in> set (a_lines n). \<forall>c \<in> set l. \<not> is_linebreak c"
    by (auto simp add: a_lines_def is_linebreak_def)
  have a: "\<not> is_space 0x61" by (simp add: is_space_def)
  have "strip (replicate (Suc k) 0x61) = replicate (Suc k) 0x61" for k
    using a by (simp add: strip_def replicate_append_same [symmetric] del: replicate_Suc)
  then show "\<forall>l \<in> set (a_lines n). strip l = l \<and> l \<noteq> []"
    by (auto simp add: a_lines_def)
qed

lemma cleaned_a_lines: "cleaned_urls (a_lines n) = a_lines n"
proof -
  from a_lines_facts(4) [of n] have "filter (\<lambda>u. strip u \<noteq> []) (a_lines n) = a_lines n"
    by (simp add: filter_id_conv)
  moreover from a_lines_facts(4) [of n] have "map strip (a_lines n) = a_lines n"
    by (simp add: map_idI)
  ultimately show ?thesis
    using fromkeys_distinct [OF a_lines_facts(2), of n "[]"] by (simp add: cleaned_urls_def)
qed

lemma a_lines_batch:
  "should_throttle (fst (websocket_endpoint Es connected (batch_text (a_lines n)) s)) = (50 < n)"
  "length (tasks (fst (websocket_endpoint Es connected (batch_text (a_lines n)) s))) = n"
  by (simp_all add: websocket_endpoint_def splitlines_batch_text [OF a_lines_facts(3)]
      cleaned_a_lines a_lines_facts(1) Let_def split: prod.splits)

lemma same_line_batch:
  "splitlines (batch_text (replicate n (ascii ''a.com''))) = replicate n (ascii ''a.com'')"
  "cleaned_urls (replicate (Suc n) (ascii ''a.com'')) = [ascii ''a.com'']"
proof -
  show "splitlines (batch_text (replicate n (ascii ''a.com''))) = replicate n (ascii ''a.com'')"
    using a_com_text(1) by (intro splitlines_batch_text) simp
  have "filter (\<lambda>u. strip u \<noteq> []) (replicate (Suc n) (ascii ''a.com'')) = replicate (Suc n) (ascii ''a.com'')"
    by (simp add: a_com_text(2))
  then show "cleaned_urls (replicate (Suc n) (ascii ''a.com'')) = [ascii ''a.com'']"
    unfolding cleaned_urls_def by (simp add: a_com_text(2) fromkeys_replicate del: replicate_Suc)
qed

section \<open>A walk whose classifier raises\<close>

text \<open>
  In the world of \<open>dns_env\<close> a response has no header, so that the classifier looks the
  hostname up. When the lookup raises \<open>e\<close>, the classifier raises \<open>e\<close> for the first
  response, and the walk ends in the handler with no hop recorded.
\<close>

lemma raising_lookup_hop:
  "h \<noteq> [] \<Longrightarrow>
   hop_info (dns_env (Inr (Some h)) (\<lambda>i. Raises e) code)
     \<lparr>resp_url = u, status_code = code, resp_headers = []\<rparr> empty_resolver =
     (Inl e, empty_resolver\<lparr>lookups := [h]\<rparr>)"
  by (simp add: hop_info_raised dns_env_classify dns_env_lookup empty_resolver_def)

lemma raising_lookup_walk:
  "h \<noteq> [] \<Longrightarrow>
   check_url_status (dns_env (Inr (Some h)) (\<lambda>i. Raises e) code) u empty_resolver =
     (except_handler u [] e, empty_resolver\<lparr>lookups := [h]\<rparr>)"
proof -
  assume h: "h \<noteq> []"
  let ?E = "dns_env (Inr (Some h)) (\<lambda>i. Raises e) code"
  have f: "follow ?E 0 u [] empty_resolver = Some (u, [], empty_resolver)" by simp
  have g: "client_get ?E 0 u = Got \<lparr>resp_url = u, status_code = code, resp_headers = []\<rparr>"
    by (simp add: dns_env_fields)
  from check_unlabelled [OF f _ g raising_lookup_hop [OF h]] show ?thesis by simp
qed

lemma label_empty_text:
  "except_handler u [] label_empty =
     \<lparr>result_url = u, status = StatusError,
      comment = ascii ''encoding with 'idna' codec failed (UnicodeError: label empty or too long)'',
      serverName = ascii ''N/A'', redirectChain = []\<rparr>"
  by (simp add: except_handler_def label_empty_def)

section \<open>The claims\<close>

subsection \<open>C1: a walk that ends on a success\<close>

text \<open>
  Claim C1, as the code has it. When the first \<open>n - 1\<close> responses of a walk are redirects
  that the walk follows, the \<open>n\<close>-th response has a 2xx status, with \<open>n\<close> from 1 to 14,
  and the classifier returns a label for each of these responses,
  \<^verbatim>\<open>check_url_status\<close> returns the success result: its comment is \<^verbatim>\<open>OK\<close> when \<open>n = 1\<close>
  and \<^verbatim>\<open>Redirect Chain\<close> otherwise, its status is the one of the first response, its
  server name is the label that the classifier gave the first response, and its chain
  has exactly \<open>n\<close> hops.
\<close>

theorem walk_success:
  assumes hops: "1 \<le> n" "n \<le> 14"
    and redirects: "follow E (n - 1) u [] s = Some (cur, chain, s1)"
    and final: "client_get E (n - 1) cur = Got r" "200 \<le> status_code r" "status_code r \<le> 299"
    and labelled: "hop_info E r s1 = (Inr h, s2)"
  shows "check_url_status E u s = (success_result u (chain @ [h]), s2) \<and>
         comment (fst (check_url_status E u s)) =
           (if n = 1 then ascii ''OK'' else ascii ''Redirect Chain'') \<and>
         (\<exists>r0 s0. client_get E 0 u = Got r0 \<and>
            status (fst (check_url_status E u s)) = Status (status_code r0) \<and>
            get_server_name_advanced E (resp_headers r0) (resp_url r0) s =
              (Inr (serverName (fst (check_url_status E u s))), s0)) \<and>
         length (redirectChain (fst (check_url_status E u s))) = n"
proof -
  from final(2,3) have ok: "is_success r" and nored: "\<not> is_redirect r"
    by (simp_all add: is_success_def is_redirect_def)
  from hops have k: "n - 1 < 15" "n - 1 < 14" by simp_all
  from check_final_ok [OF redirects k(1) final(1) labelled nored ok] k(2)
  have res: "check_url_status E u s = (success_result u (chain @ [h]), s2)"
    by simp
  from follow_extends [OF redirects] hops have len: "length (chain @ [h]) = n"
    by simp
  from first_hop [OF redirects final(1) labelled]
  obtain r0 h0 s0 rest where get0: "client_get E 0 u = Got r0"
    and h0: "hop_info E r0 s = (Inr h0, s0)" and hd: "chain @ [h] = h0 # rest"
    by blast
  from h0 obtain label0 where
    label0: "get_server_name_advanced E (resp_headers r0) (resp_url r0) s = (Inr label0, s0)"
    and h0_def: "h0 = \<lparr>hop_url = resp_url r0, hop_status = status_code r0, hop_serverName = label0\<rparr>"
    unfolding hop_info_labelled by blast
  have c: "comment (success_result u (chain @ [h])) =
          (if n = 1 then ascii ''OK'' else ascii ''Redirect Chain'')"
    using len hops(1) unfolding success_result_def by auto
  have st: "status (success_result u (chain @ [h])) = Status (status_code r0)"
    unfolding success_result_def hd by (simp add: h0_def)
  have sn: "serverName (success_result u (chain @ [h])) = label0"
    unfolding success_result_def hd by (simp add: h0_def)
  have l: "length (redirectChain (success_result u (chain @ [h]))) = n"
    using len by (simp add: success_result_def)
  from get0 st sn label0
  have first: "\<exists>r0 s0. client_get E 0 u = Got r0 \<and>
            status (fst (check_url_status E u s)) = Status (status_code r0) \<and>
            get_server_name_advanced E (resp_headers r0) (resp_url r0) s =
              (Inr (serverName (fst (check_url_status E u s))), s0)"
    unfolding res by auto
  from c l have "comment (fst (check_url_status E u s)) =
           (if n = 1 then ascii ''OK'' else ascii ''Redirect Chain'')"
    and "length (redirectChain (fst (check_url_status E u s))) = n"
    unfolding res by simp_all
  with res first show ?thesis by blast
qed

text \<open>
  One redirect from \<^verbatim>\<open>/x\<close> to \<^verbatim>\<open>/y\<close>, then a 200.
\<close>

theorem walk_success_witness:
  "follow (sample_env 1 200) 1 (ascii ''https://a.test/x'') [] empty_resolver =
     Some (ascii ''https://a.test/y'',
           [\<lparr>hop_url = ascii ''https://a.test/x'', hop_status = 301, hop_serverName = ascii ''Nginx''\<rparr>],
           empty_resolver) \<and>
   client_get (sample_env 1 200) 1 (ascii ''https://a.test/y'') =
     Got (final_response (ascii ''https://a.test/y'') 200) \<and>
   hop_info (sample_env 1 200) (final_response (ascii ''https://a.test/y'') 200) empty_resolver =
     (Inr \<lparr>hop_url = ascii ''https://a.test/y'', hop_status = 200, hop_serverName = ascii ''Nginx''\<rparr>,
      empty_resolver) \<and>
   fst (check_url_status (sample_env 1 200) (ascii ''https://a.test/x'') empty_resolver) =
     \<lparr>result_url = ascii ''https://a.test/x'', status = Status 301,
      comment = ascii ''Redirect Chain'', serverName = ascii ''Nginx'',
      redirectChain =
        [\<lparr>hop_url = ascii ''https://a.test/x'', hop_status = 301, hop_serverName = ascii ''Nginx''\<rparr>,
         \<lparr>hop_url = ascii ''https://a.test/y'', hop_status = 200, hop_serverName = ascii ''Nginx''\<rparr>]\<rparr>"
proof -
  let ?E = "sample_env 1 200"
  have f: "follow ?E 1 (ascii ''https://a.test/x'') [] empty_resolver =
     Some (ascii ''https://a.test/y'',
           [\<lparr>hop_url = ascii ''https://a.test/x'', hop_status = 301, hop_serverName = ascii ''Nginx''\<rparr>],
           empty_resolver)"
    using sample_follow_step [of "[]" 1 200 0 "ascii ''https://a.test/x''" empty_resolver]
    by (simp add: other_page_def)
  have g: "client_get ?E 1 (ascii ''https://a.test/y'') = Got (final_response (ascii ''https://a.test/y'') 200)"
    by (simp add: sample_env_fields)
  have st: "200 \<le> status_code (final_response (ascii ''https://a.test/y'') 200)"
    "status_code (final_response (ascii ''https://a.test/y'') 200) \<le> 299"
    by (simp_all add: sample_fields)
  note h = sample_hop_final [of 1 200 "ascii ''https://a.test/y''" 200 empty_resolver]
  have one: "(2::nat) - 1 = 1" by simp
  have n: "1 \<le> (2::nat)" "(2::nat) \<le> 14" by simp_all
  have f': "follow ?E (2 - 1) (ascii ''https://a.test/x'') [] empty_resolver =
     Some (ascii ''https://a.test/y'',
           [\<lparr>hop_url = ascii ''https://a.test/x'', hop_status = 301, hop_serverName = ascii ''Nginx''\<rparr>],
           empty_resolver)"
    unfolding one by (rule f)
  have g': "client_get ?E (2 - 1) (ascii ''https://a.test/y'') =
      Got (final_response (ascii ''https://a.test/y'') 200)"
    unfolding one by (rule g)
  note w = walk_success [OF n f' g' st h, THEN conjunct1]
  have r: "fst (check_url_status ?E (ascii ''https://a.test/x'') empty_resolver) =
     \<lparr>result_url = ascii ''https://a.test/x'', status = Status 301,
      comment = ascii ''Redirect Chain'', serverName = ascii ''Nginx'',
      redirectChain =
        [\<lparr>hop_url = ascii ''https://a.test/x'', hop_status = 301, hop_serverName = ascii ''Nginx''\<rparr>,
         \<lparr>hop_url = ascii ''https://a.test/y'', hop_status = 200, hop_serverName = ascii ''Nginx''\<rparr>]\<rparr>"
    unfolding w by (simp add: success_result_def)
  show ?thesis
    by (intro conjI f g h r)
qed

text \<open>
  The claim as stated, for every non-redirect status below 400 and every \<open>n\<close> up to
  15, fails. A first response with status 101 is no redirect, and
  \<^verbatim>\<open>raise_for_status\<close> raises for it: the comment is \<^verbatim>\<open>HTTP Error: 101\<close>. When the
  15th response is a 200 after 14 redirects, the chain has 15 hops and the test after
  the loop raises: the comment is \<^verbatim>\<open>Too many redirects\<close>. And when the classifier
  raises for a first response with status 200, here because the lookup of the
  hostname \<^verbatim>\<open>a..b\<close> raises \<^verbatim>\<open>UnicodeError\<close>, the result is an error with an empty
  chain.
\<close>

theorem walk_success_counterexample:
  "client_get (sample_env 0 101) 0 (ascii ''https://a.test/x'') =
     Got (final_response (ascii ''https://a.test/x'') 101) \<and>
   \<not> is_redirect (final_response (ascii ''https://a.test/x'') 101) \<and>
   status_code (final_response (ascii ''https://a.test/x'') 101) < 400 \<and>
   comment (fst (check_url_status (sample_env 0 101) (ascii ''https://a.test/x'') empty_resolver)) =
     ascii ''HTTP Error: 101'' \<and>
   comment (fst (check_url_status (sample_env 14 200) (ascii ''https://a.test/x'') empty_resolver)) =
     ascii ''Too many redirects'' \<and>
   length (redirectChain (fst (check_url_status (sample_env 14 200) (ascii ''https://a.test/x'')
     empty_resolver))) = 15 \<and>
   hop_status (last (redirectChain (fst (check_url_status (sample_env 14 200)
     (ascii ''https://a.test/x'') empty_resolver)))) = 200 \<and>
   client_get (dns_env (Inr (Some (ascii ''a..b''))) (\<lambda>i. Raises label_empty) 200) 0
     (ascii ''http://a..b/x'') =
     Got \<lparr>resp_url = ascii ''http://a..b/x'', status_code = 200, resp_headers = []\<rparr> \<and>
   fst (check_url_status (dns_env (Inr (Some (ascii ''a..b''))) (\<lambda>i. Raises label_empty) 200)
     (ascii ''http://a..b/x'') empty_resolver) =
     \<lparr>result_url = ascii ''http://a..b/x'', status = StatusError,
      comment = ascii ''encoding with 'idna' codec failed (UnicodeError: label empty or too long)'',
      serverName = ascii ''N/A'', redirectChain = []\<rparr>"
proof -
  let ?x = "ascii ''https://a.test/x''"
  have g: "client_get (sample_env 0 101) 0 ?x = Got (final_response ?x 101)"
    by (simp add: sample_env_fields)
  have f0: "follow (sample_env 0 101) 0 ?x [] empty_resolver = Some (?x, [], empty_resolver)"
    by simp
  from check_final_error [OF f0 _ g sample_hop_final sample_statuses(6) sample_statuses(5)]
  have a: "comment (fst (check_url_status (sample_env 0 101) ?x empty_resolver)) = ascii ''HTTP Error: 101''"
    by (simp add: except_handler_def final_response_def str_int_examples ascii_append [symmetric])
  from sample_follow [of "[]" 14 14 200 ?x empty_resolver]
  obtain cur chain where
    f: "follow (sample_env 14 200) 14 ?x [] empty_resolver = Some (cur, chain, empty_resolver)"
    by auto
  have g14: "client_get (sample_env 14 200) 14 cur = Got (final_response cur 200)"
    by (simp add: sample_env_fields)
  from follow_extends [OF f] have len: "length chain = 14" by simp
  from check_final_ok [OF f _ g14 sample_hop_final sample_statuses(2) sample_statuses(1)]
  have "fst (check_url_status (sample_env 14 200) ?x empty_resolver) =
          except_handler ?x
            (chain @ [\<lparr>hop_url = cur, hop_status = 200, hop_serverName = ascii ''Nginx''\<rparr>])
            (PyException (ascii ''Too many redirects''))"
    by simp
  with len have b: "comment (fst (check_url_status (sample_env 14 200) ?x empty_resolver)) =
      ascii ''Too many redirects''"
    and c: "length (redirectChain (fst (check_url_status (sample_env 14 200) ?x empty_resolver))) = 15"
    and d: "hop_status (last (redirectChain (fst (check_url_status (sample_env 14 200) ?x empty_resolver)))) = 200"
    by (simp_all add: except_handler_def)
  have nr: "\<not> is_redirect (final_response ?x 101)" by (rule sample_statuses)
  have lt: "status_code (final_response ?x 101) < 400" by (simp add: sample_fields)
  have g2: "client_get (dns_env (Inr (Some (ascii ''a..b''))) (\<lambda>i. Raises label_empty) 200) 0
     (ascii ''http://a..b/x'') =
     Got \<lparr>resp_url = ascii ''http://a..b/x'', status_code = 200, resp_headers = []\<rparr>"
    by (simp add: dns_env_fields)
  have e: "fst (check_url_status (dns_env (Inr (Some (ascii ''a..b''))) (\<lambda>i. Raises label_empty) 200)
     (ascii ''http://a..b/x'') empty_resolver) =
     \<lparr>result_url = ascii ''http://a..b/x'', status = StatusError,
      comment = ascii ''encoding with 'idna' codec failed (UnicodeError: label empty or too long)'',
      serverName = ascii ''N/A'', redirectChain = []\<rparr>"
    by (simp add: raising_lookup_walk label_empty_text)
  show ?thesis
    by (intro conjI g nr lt a b c d g2 e)
qed

subsection \<open>C2: the length of the chain\<close>

text \<open>
  Claim C2 bounds the chain of every result by 15 hops. Fourteen redirects followed
  by a 404 give a chain of 16: the loop records the 15th response, and the handler of
  \<^verbatim>\<open>HTTPStatusError\<close> appends it once more.
\<close>

theorem chain_of_sixteen:
  "length (redirectChain (fst (check_url_status (sample_env 14 404) (ascii ''https://a.test/x'')
     empty_resolver))) = 16 \<and>
   comment (fst (check_url_status (sample_env 14 404) (ascii ''https://a.test/x'') empty_resolver)) =
     ascii ''HTTP Error: 404''"
proof -
  let ?x = "ascii ''https://a.test/x''"
  from sample_follow [of "[]" 14 14 404 ?x empty_resolver]
  obtain cur chain where
    f: "follow (sample_env 14 404) 14 ?x [] empty_resolver = Some (cur, chain, empty_resolver)"
    by auto
  have g14: "client_get (sample_env 14 404) 14 cur = Got (final_response cur 404)"
    by (simp add: sample_env_fields)
  from follow_extends [OF f] have len: "length chain = 14" by simp
  from check_final_error [OF f _ g14 sample_hop_final sample_statuses(4) sample_statuses(3)]
  have "fst (check_url_status (sample_env 14 404) ?x empty_resolver) =
          except_handler ?x
            (chain @ [\<lparr>hop_url = cur, hop_status = 404, hop_serverName = ascii ''Nginx''\<rparr>])
            (HTTPStatusError (final_response cur 404))"
    by simp
  with len show ?thesis
    by (simp add: except_handler_def final_response_def str_int_examples ascii_append [symmetric])
qed

text \<open>
  With that second entry no chain is longer than 16.
\<close>

lemma chain_at_most_sixteen:
  "length (redirectChain (fst (check_url_status E u s))) \<le> 16"
proof -
  obtain raised chain s' where w: "walk_loop E MAX_REDIRECTS u [] s = (raised, chain, s')"
    by (cases "walk_loop E MAX_REDIRECTS u [] s")
  from walk_loop_length [OF w] have "length chain \<le> 15"
    by (simp add: MAX_REDIRECTS_def)
  moreover have "length (redirectChain (except_handler u chain e)) \<le> length chain + 1" for e
    by (cases e) (simp_all add: except_handler_def)
  moreover have "redirectChain (success_result u chain) = chain"
    by (simp add: success_result_def)
  ultimately have "length (redirectChain (except_handler u chain e)) \<le> 16"
    and "length (redirectChain (success_result u chain)) \<le> 16" for e
    by (simp_all add: le_trans [of _ "length chain + 1" 16])
  with w show ?thesis
    by (simp add: check_url_status_def split: option.splits)
qed

text \<open>
  The other half of the claim holds: when all 15 requests of the loop are answered by
  redirects that the walk follows, the walk ends with \<^verbatim>\<open>Too many redirects\<close>, and its
  chain holds those 15 hops and nothing more.
\<close>

theorem too_many_redirects:
  assumes "follow E 15 u [] s = Some (cur, chain, s1)"
  shows "comment (fst (check_url_status E u s)) = ascii ''Too many redirects'' \<and>
         redirectChain (fst (check_url_status E u s)) = chain \<and> length chain = 15"
proof -
  from walk_after_follow [OF assms]
  have loop: "walk_loop E MAX_REDIRECTS u [] s = walk_loop E (15 - 15) cur chain s1"
    and len: "length chain = 15" by simp_all
  from loop have "walk_loop E MAX_REDIRECTS u [] s = (None, chain, s1)" by simp
  with len show ?thesis
    by (simp add: check_url_status_def MAX_REDIRECTS_def except_handler_def)
qed

theorem too_many_redirects_witness:
  "comment (fst (check_url_status (sample_env 15 200) (ascii ''https://a.test/x'') empty_resolver)) =
     ascii ''Too many redirects'' \<and>
   length (redirectChain (fst (check_url_status (sample_env 15 200) (ascii ''https://a.test/x'')
     empty_resolver))) = 15"
proof -
  from sample_follow [of "[]" 15 15 200 "ascii ''https://a.test/x''" empty_resolver]
  obtain cur chain where
    f: "follow (sample_env 15 200) 15 (ascii ''https://a.test/x'') [] empty_resolver =
          Some (cur, chain, empty_resolver)"
    by auto
  from too_many_redirects [OF f] show ?thesis by simp
qed

subsection \<open>C3: a final response with an error status\<close>

text \<open>
  Claim C3 has the failing hop as the single final entry of the chain. A first
  response with status 404 is recorded twice: by the loop, with the label of the
  classifier, and again by the handler of \<^verbatim>\<open>HTTPStatusError\<close>, with the label
  \<^verbatim>\<open>N/A\<close>.
\<close>

theorem failing_hop_twice:
  "redirectChain (fst (check_url_status (sample_env 0 404) (ascii ''https://a.test/x'')
     empty_resolver)) =
     [\<lparr>hop_url = ascii ''https://a.test/x'', hop_status = 404, hop_serverName = ascii ''Nginx''\<rparr>,
      \<lparr>hop_url = ascii ''https://a.test/x'', hop_status = 404, hop_serverName = ascii ''N/A''\<rparr>] \<and>
   comment (fst (check_url_status (sample_env 0 404) (ascii ''https://a.test/x'') empty_resolver)) =
     ascii ''HTTP Error: 404''"
proof -
  let ?x = "ascii ''https://a.test/x''"
  have g: "client_get (sample_env 0 404) 0 ?x = Got (final_response ?x 404)"
    by (simp add: sample_env_fields)
  have f0: "follow (sample_env 0 404) 0 ?x [] empty_resolver = Some (?x, [], empty_resolver)"
    by simp
  from check_final_error [OF f0 _ g sample_hop_final sample_statuses(4) sample_statuses(3)]
  show ?thesis
    by (simp add: except_handler_def sample_fields str_int_examples ascii_append [symmetric])
qed

subsection \<open>C4: when a batch is throttled\<close>

text \<open>
  Claim C4, as the code has it. The throttle is on exactly when the received text has
  more than 50 lines, blank and repeated lines included. There are never more tasks
  than lines, so a batch with more than 50 distinct URLs is throttled; and every walk
  waits 100 ms when the throttle is on and does not wait otherwise.
\<close>

theorem throttle_by_line_count:
  "should_throttle (fst (websocket_endpoint Es connected data s)) = (50 < length (splitlines data)) \<and>
   length (tasks (fst (websocket_endpoint Es connected data s))) \<le> length (splitlines data) \<and>
   (50 < length (tasks (fst (websocket_endpoint Es connected data s))) \<longrightarrow>
      should_throttle (fst (websocket_endpoint Es connected data s))) \<and>
   waits (fst (websocket_endpoint Es connected data s)) =
     replicate (length (tasks (fst (websocket_endpoint Es connected data s))))
       (if 50 < length (splitlines data) then 100 else 0)"
proof -
  have fewer: "length (tasks (fst (websocket_endpoint Es connected data s))) \<le> length (splitlines data)"
    using cleaned_urls_length [of "splitlines data"] by (simp add: endpoint_fields)
  then have "50 < length (tasks (fst (websocket_endpoint Es connected data s))) \<longrightarrow>
      should_throttle (fst (websocket_endpoint Es connected data s))"
    by (simp add: endpoint_fields(1))
  moreover have "waits (fst (websocket_endpoint Es connected data s)) =
     replicate (length (tasks (fst (websocket_endpoint Es connected data s))))
       (if 50 < length (splitlines data) then 100 else 0)"
    by (simp add: endpoint_fields run_tasks_waits)
  ultimately show ?thesis
    using fewer endpoint_fields(1) by blast
qed

text \<open>
  A batch of 60 distinct URLs is throttled, one of 10 is not.
\<close>

theorem throttle_by_line_count_witness:
  "50 < length (tasks (fst (websocket_endpoint (\<lambda>i. sample_env 0 200) (\<lambda>k. True)
          (batch_text (a_lines 60)) empty_resolver))) \<and>
   should_throttle (fst (websocket_endpoint (\<lambda>i. sample_env 0 200) (\<lambda>k. True)
          (batch_text (a_lines 60)) empty_resolver)) \<and>
   length (tasks (fst (websocket_endpoint (\<lambda>i. sample_env 0 200) (\<lambda>k. True)
          (batch_text (a_lines 60)) empty_resolver))) = 60 \<and>
   waits (fst (websocket_endpoint (\<lambda>i. sample_env 0 200) (\<lambda>k. True)
          (batch_text (a_lines 60)) empty_resolver)) = replicate 60 100 \<and>
   \<not> should_throttle (fst (websocket_endpoint (\<lambda>i. sample_env 0 200) (\<lambda>k. True)
          (batch_text (a_lines 10)) empty_resolver)) \<and>
   length (tasks (fst (websocket_endpoint (\<lambda>i. sample_env 0 200) (\<lambda>k. True)
          (batch_text (a_lines 10)) empty_resolver))) = 10 \<and>
   waits (fst (websocket_endpoint (\<lambda>i. sample_env 0 200) (\<lambda>k. True)
          (batch_text (a_lines 10)) empty_resolver)) = replicate 10 0"
proof -
  let ?run = "\<lambda>n. fst (websocket_endpoint (\<lambda>i. sample_env 0 200) (\<lambda>k. True)
          (batch_text (a_lines n)) empty_resolver)"
  have lines: "length (splitlines (batch_text (a_lines n))) = n" for n
    by (simp add: splitlines_batch_text [OF a_lines_facts(3)] a_lines_facts(1))
  have len: "length (tasks (?run n)) = n" for n
    by (rule a_lines_batch(2))
  note sixty = throttle_by_line_count [of "\<lambda>i. sample_env 0 200" "\<lambda>k. True"
      "batch_text (a_lines 60)" empty_resolver]
  note ten = throttle_by_line_count [of "\<lambda>i. sample_env 0 200" "\<lambda>k. True"
      "batch_text (a_lines 10)" empty_resolver]
  have big: "50 < length (tasks (?run 60))" unfolding len by simp
  from sixty big have t60: "should_throttle (?run 60)" by blast
  from sixty have w60: "waits (?run 60) = replicate 60 100"
    unfolding len lines by simp
  from ten have t10: "\<not> should_throttle (?run 10)"
    unfolding lines by simp
  from ten have w10: "waits (?run 10) = replicate 10 0"
    unfolding len lines by simp
  show ?thesis
    by (intro conjI big t60 len w60 t10 w10)
qed

text \<open>
  The claim as stated, with the count of deduplicated URLs: 51 lines that all read
  \<^verbatim>\<open>a.com\<close> are one URL, and the batch is throttled.
\<close>

theorem throttle_counterexample:
  "length (splitlines (batch_text (replicate 51 (ascii ''a.com'')))) = 51 \<and>
   should_throttle (fst (websocket_endpoint (\<lambda>i. sample_env 0 200) (\<lambda>k. True)
      (batch_text (replicate 51 (ascii ''a.com''))) empty_resolver)) \<and>
   tasks (fst (websocket_endpoint (\<lambda>i. sample_env 0 200) (\<lambda>k. True)
      (batch_text (replicate 51 (ascii ''a.com''))) empty_resolver)) = [ascii ''https://a.com''] \<and>
   \<not> 50 < length (tasks (fst (websocket_endpoint (\<lambda>i. sample_env 0 200) (\<lambda>k. True)
      (batch_text (replicate 51 (ascii ''a.com''))) empty_resolver)))"
proof -
  have fifty: "(51::nat) = Suc 50" by simp
  have c: "cleaned_urls (replicate 51 (ascii ''a.com'')) = [ascii ''a.com'']"
    unfolding fifty by (rule same_line_batch(2))
  show ?thesis
    by (simp add: endpoint_fields same_line_batch(1) c a_com_text(3))
qed

subsection \<open>C5: the label of a Server header\<close>

text \<open>
  Claim C5, as the code has it. For a URL that \<^verbatim>\<open>urlparse\<close> accepts, with a \<^verbatim>\<open>Server\<close>
  header whose lower-cased value is not empty (for \<^verbatim>\<open>str.lower()\<close>: whose value is not
  empty), and when the override does not apply, the label is \<^verbatim>\<open>Akamai\<close> when the
  lower-cased value contains \<^verbatim>\<open>akamai\<close> or \<^verbatim>\<open>ghost\<close>, \<^verbatim>\<open>Apache (AEM)\<close> when it contains
  \<^verbatim>\<open>apache\<close>, and otherwise \<^verbatim>\<open>capitalize()\<close> of the lower-cased value: for an ASCII
  value, its first character in upper case and all the others in lower case. The
  resolver is left as it was.
\<close>

theorem server_header_label:
  assumes parsed: "urlparse_hostname E u = Inr hostname"
    and server: "lower_keys E hs (ascii ''server'') = Some v" "lower E v \<noteq> []"
    and no_override:
      "\<not> (bmw_or_mini E hostname \<and> lower_keys E hs (ascii ''cache-control'') \<noteq> None)"
  shows "get_server_name_advanced E hs u s =
           (Inr (if contains (lower E v) (ascii ''akamai'') \<or> contains (lower E v) (ascii ''ghost'')
                 then ascii ''Akamai''
                 else if contains (lower E v) (ascii ''apache'') then ascii ''Apache (AEM)''
                 else capitalize E (lower E v)), s) \<and>
         (is_ascii v \<longrightarrow> capitalize E (lower E v) = ascii_capitalize v \<and> v \<noteq> [])"
proof -
  from server(1) have "lower E (get_or_empty (lower_keys E hs) (ascii ''server'')) = lower E v"
    by (simp add: get_or_empty_def)
  from classify_server [OF parsed no_override this server(2)]
  have "get_server_name_advanced E hs u s =
           (Inr (if contains (lower E v) (ascii ''akamai'') \<or> contains (lower E v) (ascii ''ghost'')
                 then ascii ''Akamai''
                 else if contains (lower E v) (ascii ''apache'') then ascii ''Apache (AEM)''
                 else capitalize E (lower E v)), s)" .
  moreover have "is_ascii v \<longrightarrow> capitalize E (lower E v) = ascii_capitalize v \<and> v \<noteq> []"
  proof
    assume a: "is_ascii v"
    from server(2) a have "v \<noteq> []"
      by (auto simp add: lower_def ascii_lower_def)
    with capitalize_lower_ascii [OF a, of E]
    show "capitalize E (lower E v) = ascii_capitalize v \<and> v \<noteq> []" by simp
  qed
  ultimately show ?thesis by blast
qed

text \<open>
  \<^verbatim>\<open>Server: nginx\<close> gives \<^verbatim>\<open>Nginx\<close>.
\<close>

theorem server_header_label_witness:
  "urlparse_hostname (dns_env (Inr (Some (ascii ''cdn.test''))) (\<lambda>i. Failed) 200)
     (ascii ''https://cdn.test/'') = Inr (Some (ascii ''cdn.test'')) \<and>
   lower_keys (dns_env (Inr (Some (ascii ''cdn.test''))) (\<lambda>i. Failed) 200)
     [(ascii ''Server'', ascii ''nginx'')] (ascii ''server'') = Some (ascii ''nginx'') \<and>
   lower (dns_env (Inr (Some (ascii ''cdn.test''))) (\<lambda>i. Failed) 200) (ascii ''nginx'') = ascii ''nginx'' \<and>
   \<not> bmw_or_mini (dns_env (Inr (Some (ascii ''cdn.test''))) (\<lambda>i. Failed) 200) (Some (ascii ''cdn.test'')) \<and>
   is_ascii (ascii ''nginx'') \<and> ascii_capitalize (ascii ''nginx'') = ascii ''Nginx'' \<and>
   get_server_name_advanced (dns_env (Inr (Some (ascii ''cdn.test''))) (\<lambda>i. Failed) 200)
     [(ascii ''Server'', ascii ''nginx'')] (ascii ''https://cdn.test/'') empty_resolver =
     (Inr (ascii ''Nginx''), empty_resolver)"
proof -
  let ?E = "dns_env (Inr (Some (ascii ''cdn.test''))) (\<lambda>i. Failed) 200"
  have p: "urlparse_hostname ?E (ascii ''https://cdn.test/'') = Inr (Some (ascii ''cdn.test''))"
    by (simp add: dns_env_fields)
  have key: "lower ?E (ascii ''Server'') = ascii ''server''"
    by (simp add: lower_def is_ascii_def ascii_lower_def ascii_def)
  have k: "lower_keys ?E [(ascii ''Server'', ascii ''nginx'')] (ascii ''server'') = Some (ascii ''nginx'')"
    by (simp add: lower_keys_def key)
  have l: "lower ?E (ascii ''nginx'') = ascii ''nginx''"
    by (simp add: lower_def sample_text)
  have ne: "lower ?E (ascii ''nginx'') \<noteq> []"
    unfolding l by simp
  have o: "\<not> bmw_or_mini ?E (Some (ascii ''cdn.test''))"
    by (simp add: bmw_or_mini_def lower_def sample_text sample_contains)
  then have o': "\<not> (bmw_or_mini ?E (Some (ascii ''cdn.test'')) \<and>
      lower_keys ?E [(ascii ''Server'', ascii ''nginx'')] (ascii ''cache-control'') \<noteq> None)"
    by simp
  note w = server_header_label [OF p k ne o', of empty_resolver]
  from w [THEN conjunct2] sample_text(1)
  have cap: "capitalize ?E (lower ?E (ascii ''nginx'')) = ascii ''Nginx''"
    by (simp add: sample_text(3))
  have r: "get_server_name_advanced ?E [(ascii ''Server'', ascii ''nginx'')] (ascii ''https://cdn.test/'')
     empty_resolver = (Inr (ascii ''Nginx''), empty_resolver)"
    using w [THEN conjunct1] unfolding cap by (simp add: l sample_contains)
  show ?thesis
    by (intro conjI p k l o sample_text(1) sample_text(3) r)
qed

text \<open>
  The claim as stated keeps the characters after the first as received.
  \<^verbatim>\<open>Server: Microsoft-IIS/10.0\<close> gives \<^verbatim>\<open>Microsoft-iis/10.0\<close>.
\<close>

theorem server_header_label_counterexample:
  "lower_keys (dns_env (Inr (Some (ascii ''cdn.test''))) (\<lambda>i. Failed) 200)
     [(ascii ''Server'', ascii ''Microsoft-IIS/10.0'')] (ascii ''server'') =
     Some (ascii ''Microsoft-IIS/10.0'') \<and>
   fst (get_server_name_advanced (dns_env (Inr (Some (ascii ''cdn.test''))) (\<lambda>i. Failed) 200)
          [(ascii ''Server'', ascii ''Microsoft-IIS/10.0'')] (ascii ''https://cdn.test/'')
          empty_resolver) = Inr (ascii ''Microsoft-iis/10.0'') \<and>
   fst (get_server_name_advanced (dns_env (Inr (Some (ascii ''cdn.test''))) (\<lambda>i. Failed) 200)
          [(ascii ''Server'', ascii ''Microsoft-IIS/10.0'')] (ascii ''https://cdn.test/'')
          empty_resolver) \<noteq> Inr (ascii ''Microsoft-IIS/10.0'')"
proof -
  let ?E = "dns_env (Inr (Some (ascii ''cdn.test''))) (\<lambda>i. Failed) 200"
  let ?hs = "[(ascii ''Server'', ascii ''Microsoft-IIS/10.0'')]"
  have p: "urlparse_hostname ?E (ascii ''https://cdn.test/'') = Inr (Some (ascii ''cdn.test''))"
    by (simp add: dns_env_fields)
  have key: "lower ?E (ascii ''Server'') = ascii ''server''"
    by (simp add: lower_def is_ascii_def ascii_lower_def ascii_def)
  have k: "lower_keys ?E ?hs (ascii ''server'') = Some (ascii ''Microsoft-IIS/10.0'')"
    by (simp add: lower_keys_def key)
  have l: "lower ?E (ascii ''Microsoft-IIS/10.0'') = ascii ''microsoft-iis/10.0''"
    by (simp add: lower_def is_ascii_def ascii_lower_def ascii_def)
  from k l have g: "lower ?E (get_or_empty (lower_keys ?E ?hs) (ascii ''server'')) =
      ascii ''microsoft-iis/10.0''"
    by (simp add: get_or_empty_def)
  have ne: "ascii ''microsoft-iis/10.0'' \<noteq> []" by simp
  have c: "capitalize ?E (ascii ''microsoft-iis/10.0'') = ascii ''Microsoft-iis/10.0''"
    by (simp add: capitalize_def is_ascii_def ascii_capitalize_def ascii_lower_def ascii_def)
  have no: "\<not> contains (ascii ''microsoft-iis/10.0'') (ascii ''akamai'')"
    "\<not> contains (ascii ''microsoft-iis/10.0'') (ascii ''ghost'')"
    "\<not> contains (ascii ''microsoft-iis/10.0'') (ascii ''apache'')"
    by (simp_all add: ascii_def)
  have o: "\<not> (bmw_or_mini ?E (Some (ascii ''cdn.test'')) \<and>
      lower_keys ?E ?hs (ascii ''cache-control'') \<noteq> None)"
    by (simp add: bmw_or_mini_def lower_def sample_text sample_contains)
  have "fst (get_server_name_advanced ?E ?hs (ascii ''https://cdn.test/'') empty_resolver) =
      Inr (ascii ''Microsoft-iis/10.0'')"
    using classify_server [OF p o g ne, of empty_resolver] by (simp add: no c)
  with k show ?thesis by simp
qed

subsection \<open>C6: what the resolver remembers\<close>

text \<open>
  Claim C6, as the code has it. Take two calls of \<^verbatim>\<open>resolve_ip_async\<close> for the same
  hostname, one after the other, where the lookup of the first call, when it makes
  one, returns an address or raises \<^verbatim>\<open>socket.gaierror\<close> or \<^verbatim>\<open>TypeError\<close>. The first call
  does not raise. A missing or empty hostname gives no address and changes nothing.
  An answer that is an address is remembered: the second call gives the same address,
  changes nothing and looks nothing up. A failed lookup gives no address and is not
  remembered: the cache stays as it was and the second call looks the name up again.
\<close>

theorem resolve_twice:
  assumes first: "resolve_ip_async E hostname s = (r1, s1)"
    and second: "resolve_ip_async E hostname s1 = (r2, s2)"
    and caught: "\<And>h e. hostname = Some h \<Longrightarrow> h \<noteq> [] \<Longrightarrow> ip_cache s h = None \<Longrightarrow>
                   gethostbyname E (length (lookups s)) h \<noteq> Raises e"
  shows "(\<exists>answer. r1 = Inr answer) \<and>
         (hostname = None \<or> hostname = Some [] \<longrightarrow> r1 = Inr None \<and> s1 = s) \<and>
         (\<forall>ip. r1 = Inr (Some ip) \<longrightarrow> r2 = r1 \<and> s2 = s1) \<and>
         (\<forall>h. hostname = Some h \<and> h \<noteq> [] \<and> ip_cache s h = None \<and>
               gethostbyname E (length (lookups s)) h = Failed \<longrightarrow>
              r1 = Inr None \<and> ip_cache s1 = ip_cache s \<and> lookups s1 = lookups s @ [h] \<and>
              lookups s2 = lookups s @ [h, h])"
proof -
  have no_raise: "\<exists>answer. r1 = Inr answer"
    using first caught
    by (auto simp add: resolve_ip_async_def split: option.splits if_splits lookup.splits)
  have absent: "hostname = None \<or> hostname = Some [] \<longrightarrow> r1 = Inr None \<and> s1 = s"
    using first by (auto simp add: resolve_ip_async_def)
  have cached: "\<forall>ip. r1 = Inr (Some ip) \<longrightarrow> r2 = r1 \<and> s2 = s1"
    using first second
    by (auto simp add: resolve_ip_async_def split: option.splits if_splits lookup.splits)
  have failed: "\<forall>h. hostname = Some h \<and> h \<noteq> [] \<and> ip_cache s h = None \<and>
               gethostbyname E (length (lookups s)) h = Failed \<longrightarrow>
              r1 = Inr None \<and> ip_cache s1 = ip_cache s \<and> lookups s1 = lookups s @ [h] \<and>
              lookups s2 = lookups s @ [h, h]"
    using first second
    by (auto simp add: resolve_ip_async_def split: lookup.splits)
  from no_raise absent cached failed show ?thesis
    by (intro conjI)
qed

text \<open>
  A name that does not resolve, asked twice, and a name that resolves, asked twice.
\<close>

theorem resolve_twice_witness:
  "resolve_ip_async (dns_env (Inr None) (\<lambda>i. Failed) 200) (Some (ascii ''cdn.test'')) empty_resolver =
     (Inr None, empty_resolver\<lparr>lookups := [ascii ''cdn.test'']\<rparr>) \<and>
   resolve_ip_async (dns_env (Inr None) (\<lambda>i. Failed) 200) (Some (ascii ''cdn.test''))
     (empty_resolver\<lparr>lookups := [ascii ''cdn.test'']\<rparr>) =
     (Inr None, empty_resolver\<lparr>lookups := [ascii ''cdn.test'', ascii ''cdn.test'']\<rparr>) \<and>
   gethostbyname (dns_env (Inr None) (\<lambda>i. Failed) 200) (length (lookups empty_resolver))
     (ascii ''cdn.test'') = Failed \<and>
   ip_cache empty_resolver (ascii ''cdn.test'') = None \<and>
   ip_cache (empty_resolver\<lparr>lookups := [ascii ''cdn.test'']\<rparr>) = ip_cache empty_resolver \<and>
   lookups (empty_resolver\<lparr>lookups := [ascii ''cdn.test'', ascii ''cdn.test'']\<rparr>) =
     lookups empty_resolver @ [ascii ''cdn.test'', ascii ''cdn.test''] \<and>
   resolve_ip_async (dns_env (Inr None) (\<lambda>i. Resolved (ascii ''184.24.5.1'')) 200)
     (Some (ascii ''cdn.test'')) empty_resolver =
     (Inr (Some (ascii ''184.24.5.1'')),
      \<lparr>ip_cache = [ascii ''cdn.test'' \<mapsto> ascii ''184.24.5.1''], lookups = [ascii ''cdn.test'']\<rparr>) \<and>
   resolve_ip_async (dns_env (Inr None) (\<lambda>i. Resolved (ascii ''184.24.5.1'')) 200)
     (Some (ascii ''cdn.test''))
     \<lparr>ip_cache = [ascii ''cdn.test'' \<mapsto> ascii ''184.24.5.1''], lookups = [ascii ''cdn.test'']\<rparr> =
     (Inr (Some (ascii ''184.24.5.1'')),
      \<lparr>ip_cache = [ascii ''cdn.test'' \<mapsto> ascii ''184.24.5.1''], lookups = [ascii ''cdn.test'']\<rparr>)"
proof -
  let ?F = "dns_env (Inr None) (\<lambda>i. Failed) 200"
  let ?R = "dns_env (Inr None) (\<lambda>i. Resolved (ascii ''184.24.5.1'')) 200"
  let ?h = "ascii ''cdn.test''"
  let ?s = "\<lparr>ip_cache = [?h \<mapsto> ascii ''184.24.5.1''], lookups = [?h]\<rparr>"
  have ne: "?h \<noteq> []" by simp
  have a: "resolve_ip_async ?F (Some ?h) empty_resolver = (Inr None, empty_resolver\<lparr>lookups := [?h]\<rparr>)"
    by (simp add: resolve_ip_async_def dns_env_fields empty_resolver_def)
  have b: "resolve_ip_async ?F (Some ?h) (empty_resolver\<lparr>lookups := [?h]\<rparr>) =
     (Inr None, empty_resolver\<lparr>lookups := [?h, ?h]\<rparr>)"
    by (simp add: resolve_ip_async_def dns_env_fields empty_resolver_def)
  have c: "ip_cache empty_resolver ?h = None"
    by (simp add: empty_resolver_def)
  have d: "gethostbyname ?F (length (lookups empty_resolver)) ?h = Failed"
    by (simp add: dns_env_fields)
  have caught: "gethostbyname ?F (length (lookups empty_resolver)) h \<noteq> Raises e" for h e
    by (simp add: dns_env_fields)
  from resolve_twice [OF a b caught] c d ne
  have f: "ip_cache (empty_resolver\<lparr>lookups := [?h]\<rparr>) = ip_cache empty_resolver \<and>
        lookups (empty_resolver\<lparr>lookups := [?h, ?h]\<rparr>) = lookups empty_resolver @ [?h, ?h]"
    by blast
  have a': "resolve_ip_async ?R (Some ?h) empty_resolver = (Inr (Some (ascii ''184.24.5.1'')), ?s)"
    by (simp add: resolve_ip_async_def dns_env_fields empty_resolver_def)
  obtain r2 s2 where b': "resolve_ip_async ?R (Some ?h) ?s = (r2, s2)"
    by (cases "resolve_ip_async ?R (Some ?h) ?s")
  have caught': "gethostbyname ?R (length (lookups empty_resolver)) h \<noteq> Raises e" for h e
    by (simp add: dns_env_fields)
  from resolve_twice [OF a' b' caught']
  have "r2 = Inr (Some (ascii ''184.24.5.1'')) \<and> s2 = ?s"
    by blast
  with b' have g: "resolve_ip_async ?R (Some ?h) ?s = (Inr (Some (ascii ''184.24.5.1'')), ?s)"
    by simp
  show ?thesis
    by (intro conjI a b d c f [THEN conjunct1] f [THEN conjunct2] a' g)
qed

text \<open>
  The claim as stated has the failure cached, and no exception ever. After a failed
  lookup the name is not in the cache, and the next call repeats the lookup. And the
  \<^verbatim>\<open>UnicodeError\<close> that \<^verbatim>\<open>socket.gethostbyname\<close> raises for \<^verbatim>\<open>a..b\<close> is none of the two
  exceptions caught at line 48: it leaves \<^verbatim>\<open>resolve_ip_async\<close>.
\<close>

theorem failure_not_cached:
  "fst (resolve_ip_async (dns_env (Inr None) (\<lambda>i. Failed) 200) (Some (ascii ''cdn.test''))
     empty_resolver) = Inr None \<and>
   ip_cache (snd (resolve_ip_async (dns_env (Inr None) (\<lambda>i. Failed) 200) (Some (ascii ''cdn.test''))
     empty_resolver)) (ascii ''cdn.test'') = None \<and>
   lookups (snd (resolve_ip_async (dns_env (Inr None) (\<lambda>i. Failed) 200) (Some (ascii ''cdn.test''))
      (snd (resolve_ip_async (dns_env (Inr None) (\<lambda>i. Failed) 200) (Some (ascii ''cdn.test''))
         empty_resolver)))) = [ascii ''cdn.test'', ascii ''cdn.test''] \<and>
   fst (resolve_ip_async (dns_env (Inr None) (\<lambda>i. Raises label_empty) 200) (Some (ascii ''a..b''))
     empty_resolver) = Inl label_empty"
  by (simp add: resolve_ip_async_def dns_env_fields empty_resolver_def)

subsection \<open>C7: a redirect without Location\<close>

text \<open>
  Claim C7, as the code has it. When a walk reaches a hop, among its 15, whose
  response has a 3xx status and no \<^verbatim>\<open>Location\<close> header, and the classifier returns a
  label for that response, the comment of the result is
  \<^verbatim>\<open>Redirect missing location header\<close>, and the chain ends with that hop.
\<close>

theorem missing_location:
  assumes reached: "k < 15" "follow E k u [] s = Some (cur, chain, s1)"
    and response: "client_get E k cur = Got r" "300 \<le> status_code r" "status_code r \<le> 399"
    and labelled: "hop_info E r s1 = (Inr h, s2)"
    and no_location: "headers_get (resp_headers r) (ascii ''location'') = None"
  shows "comment (fst (check_url_status E u s)) = ascii ''Redirect missing location header'' \<and>
         redirectChain (fst (check_url_status E u s)) = chain @ [h]"
proof -
  from response(2,3) have "is_redirect r" by (simp add: is_redirect_def)
  from check_missing_location [OF reached(2,1) response(1) labelled this no_location]
  show ?thesis by (simp add: except_handler_def)
qed

text \<open>
  One redirect from \<^verbatim>\<open>/x\<close> to \<^verbatim>\<open>/y\<close>, then a 302 without \<^verbatim>\<open>Location\<close>.
\<close>

theorem missing_location_witness:
  "follow (sample_env 1 302) 1 (ascii ''https://a.test/x'') [] empty_resolver =
     Some (ascii ''https://a.test/y'',
           [\<lparr>hop_url = ascii ''https://a.test/x'', hop_status = 301, hop_serverName = ascii ''Nginx''\<rparr>],
           empty_resolver) \<and>
   client_get (sample_env 1 302) 1 (ascii ''https://a.test/y'') =
     Got (final_response (ascii ''https://a.test/y'') 302) \<and>
   status_code (final_response (ascii ''https://a.test/y'') 302) = 302 \<and>
   hop_info (sample_env 1 302) (final_response (ascii ''https://a.test/y'') 302) empty_resolver =
     (Inr \<lparr>hop_url = ascii ''https://a.test/y'', hop_status = 302, hop_serverName = ascii ''Nginx''\<rparr>,
      empty_resolver) \<and>
   headers_get (resp_headers (final_response (ascii ''https://a.test/y'') 302)) (ascii ''location'') = None \<and>
   comment (fst (check_url_status (sample_env 1 302) (ascii ''https://a.test/x'') empty_resolver)) =
     ascii ''Redirect missing location header'' \<and>
   redirectChain (fst (check_url_status (sample_env 1 302) (ascii ''https://a.test/x'') empty_resolver)) =
     [\<lparr>hop_url = ascii ''https://a.test/x'', hop_status = 301, hop_serverName = ascii ''Nginx''\<rparr>,
      \<lparr>hop_url = ascii ''https://a.test/y'', hop_status = 302, hop_serverName = ascii ''Nginx''\<rparr>]"
proof -
  let ?E = "sample_env 1 302"
  have f: "follow ?E 1 (ascii ''https://a.test/x'') [] empty_resolver =
     Some (ascii ''https://a.test/y'',
           [\<lparr>hop_url = ascii ''https://a.test/x'', hop_status = 301, hop_serverName = ascii ''Nginx''\<rparr>],
           empty_resolver)"
    using sample_follow_step [of "[]" 1 302 0 "ascii ''https://a.test/x''" empty_resolver]
    by (simp add: other_page_def)
  have g: "client_get ?E 1 (ascii ''https://a.test/y'') = Got (final_response (ascii ''https://a.test/y'') 302)"
    by (simp add: sample_env_fields)
  have st: "status_code (final_response (ascii ''https://a.test/y'') 302) = 302"
    by (simp add: final_response_def)
  note h = sample_hop_final [of 1 302 "ascii ''https://a.test/y''" 302 empty_resolver]
  have nl: "headers_get (resp_headers (final_response (ascii ''https://a.test/y'') 302))
      (ascii ''location'') = None"
    by (rule sample_location)
  have k: "(1::nat) < 15" by simp
  have lo: "300 \<le> status_code (final_response (ascii ''https://a.test/y'') 302)"
    and hi: "status_code (final_response (ascii ''https://a.test/y'') 302) \<le> 399"
    by (simp_all add: st)
  note m = missing_location [OF k f g lo hi h nl]
  note c = m [THEN conjunct1]
  have ch: "redirectChain (fst (check_url_status ?E (ascii ''https://a.test/x'') empty_resolver)) =
     [\<lparr>hop_url = ascii ''https://a.test/x'', hop_status = 301, hop_serverName = ascii ''Nginx''\<rparr>,
      \<lparr>hop_url = ascii ''https://a.test/y'', hop_status = 302, hop_serverName = ascii ''Nginx''\<rparr>]"
    using m [THEN conjunct2] by simp
  show ?thesis
    by (intro conjI f g st h nl c ch)
qed

text \<open>
  The claim as stated, for every hop that responds with a 3xx status and no
  \<^verbatim>\<open>Location\<close>, fails when the classifier raises for that response: line 99 classifies
  the response before line 108 looks at its status. A 302 with no header at all, for
  a URL whose hostname \<^verbatim>\<open>a..b\<close> makes the lookup raise \<^verbatim>\<open>UnicodeError\<close>: the comment is
  the text of that exception, and the hop is not in the chain.
\<close>

theorem missing_location_counterexample:
  "client_get (dns_env (Inr (Some (ascii ''a..b''))) (\<lambda>i. Raises label_empty) 302) 0
     (ascii ''http://a..b/x'') =
     Got \<lparr>resp_url = ascii ''http://a..b/x'', status_code = 302, resp_headers = []\<rparr> \<and>
   is_redirect \<lparr>resp_url = ascii ''http://a..b/x'', status_code = 302, resp_headers = []\<rparr> \<and>
   headers_get (resp_headers \<lparr>resp_url = ascii ''http://a..b/x'', status_code = 302, resp_headers = []\<rparr>)
     (ascii ''location'') = None \<and>
   get_server_name_advanced (dns_env (Inr (Some (ascii ''a..b''))) (\<lambda>i. Raises label_empty) 302) []
     (ascii ''http://a..b/x'') empty_resolver =
     (Inl label_empty, empty_resolver\<lparr>lookups := [ascii ''a..b'']\<rparr>) \<and>
   fst (check_url_status (dns_env (Inr (Some (ascii ''a..b''))) (\<lambda>i. Raises label_empty) 302)
     (ascii ''http://a..b/x'') empty_resolver) =
     \<lparr>result_url = ascii ''http://a..b/x'', status = StatusError,
      comment = ascii ''encoding with 'idna' codec failed (UnicodeError: label empty or too long)'',
      serverName = ascii ''N/A'', redirectChain = []\<rparr> \<and>
   comment (fst (check_url_status (dns_env (Inr (Some (ascii ''a..b''))) (\<lambda>i. Raises label_empty) 302)
     (ascii ''http://a..b/x'') empty_resolver)) \<noteq> ascii ''Redirect missing location header''"
proof -
  let ?E = "dns_env (Inr (Some (ascii ''a..b''))) (\<lambda>i. Raises label_empty) 302"
  let ?u = "ascii ''http://a..b/x''"
  have ne: "ascii ''a..b'' \<noteq> []" by simp
  have g: "client_get ?E 0 ?u = Got \<lparr>resp_url = ?u, status_code = 302, resp_headers = []\<rparr>"
    by (simp add: dns_env_fields)
  have red: "is_redirect \<lparr>resp_url = ?u, status_code = 302, resp_headers = []\<rparr>"
    by (simp add: is_redirect_def)
  have nl: "headers_get (resp_headers \<lparr>resp_url = ?u, status_code = 302, resp_headers = []\<rparr>)
     (ascii ''location'') = None"
    by (simp add: headers_get_def)
  have cl: "get_server_name_advanced ?E [] ?u empty_resolver =
     (Inl label_empty, empty_resolver\<lparr>lookups := [ascii ''a..b'']\<rparr>)"
    using raising_lookup_hop [OF ne, of label_empty 302 ?u] by (simp add: hop_info_raised)
  have r: "fst (check_url_status ?E ?u empty_resolver) =
     \<lparr>result_url = ?u, status = StatusError,
      comment = ascii ''encoding with 'idna' codec failed (UnicodeError: label empty or too long)'',
      serverName = ascii ''N/A'', redirectChain = []\<rparr>"
    by (simp add: raising_lookup_walk label_empty_text)
  have d: "comment (fst (check_url_status ?E ?u empty_resolver)) \<noteq> ascii ''Redirect missing location header''"
    unfolding r by simp
  show ?thesis
    by (intro conjI g red nl cl r d)
qed

subsection \<open>C8: an exception outside the taxonomy\<close>

text \<open>
  Claim C8 has the comment \<^verbatim>\<open>An unexpected error occurred\<close> for every exception
  outside the named kinds. The handler sets that comment first and then replaces it in
  every branch; for an exception that is none of the three httpx classes the result
  carries the text of the exception.
\<close>

theorem unexpected_error_comment:
  "comment (fst (check_url_status
       (failing_env (PyException (ascii ''Invalid non-printable ASCII character in URL'')))
       (ascii ''https://a.test/x'') empty_resolver)) =
     ascii ''Invalid non-printable ASCII character in URL''"
  by (simp add: check_url_status_def MAX_REDIRECTS_def eval_nat_numeral failing_env_def
      except_handler_def)

subsection \<open>C9: the classifier is a function of its inputs\<close>

text \<open>
  Claim C9, as the code has it. Take two runs of the classifier on the same headers
  and the same URL, from two states of the resolver with the same cache, for a URL
  that \<^verbatim>\<open>urlparse\<close> accepts. Provided that, whenever the classifier looks the hostname
  up, the lookup answers the same in both runs and raises nothing but
  \<^verbatim>\<open>socket.gaierror\<close> or \<^verbatim>\<open>TypeError\<close>, both runs return the same label and neither raises.
  The label is \<^verbatim>\<open>Apache (AEM)\<close>, \<^verbatim>\<open>Akamai\<close>, \<^verbatim>\<open>Unknown\<close> or the capitalized \<^verbatim>\<open>Server\<close>
  value.
\<close>

theorem classifier_deterministic:
  assumes same_cache: "ip_cache s1 = ip_cache s2"
    and parsed: "urlparse_hostname E u = Inr hostname"
    and answered: "\<And>h. consults_dns E hs u s1 h \<Longrightarrow>
        gethostbyname E (length (lookups s1)) h = gethostbyname E (length (lookups s2)) h \<and>
        (\<forall>e. gethostbyname E (length (lookups s1)) h \<noteq> Raises e)"
  shows "fst (get_server_name_advanced E hs u s1) = fst (get_server_name_advanced E hs u s2) \<and>
         (\<exists>label. fst (get_server_name_advanced E hs u s1) = Inr label \<and>
            label \<in> {ascii ''Apache (AEM)'', ascii ''Akamai'', ascii ''Unknown'',
                     capitalize E (lower E (get_or_empty (lower_keys E hs) (ascii ''server'')))})"
proof (cases "bmw_or_mini E hostname \<and> lower_keys E hs (ascii ''cache-control'') \<noteq> None")
  case True
  with parsed show ?thesis
    by (simp add: classify_override)
next
  case no_override: False
  show ?thesis
  proof (cases "lower E (get_or_empty (lower_keys E hs) (ascii ''server'')) = []")
    case False
    from classify_server [OF parsed no_override refl False]
    show ?thesis by simp
  next
    case True
    have "fst (resolve_ip_async E hostname s1) = fst (resolve_ip_async E hostname s2) \<and>
          (\<exists>ip. fst (resolve_ip_async E hostname s1) = Inr ip)"
    proof (cases "\<exists>h. consults_dns E hs u s1 h")
      case True
      then obtain h where h: "consults_dns E hs u s1 h" ..
      with parsed have host: "hostname = Some h" "h \<noteq> []" "ip_cache s1 h = None"
        by (simp_all add: consults_dns_def)
      from answered [OF h]
      have eq: "gethostbyname E (length (lookups s2)) h = gethostbyname E (length (lookups s1)) h"
        by simp
      from answered [OF h]
      have caught: "gethostbyname E (length (lookups s1)) h \<noteq> Raises e" for e
        by blast
      from host same_cache have cache2: "ip_cache s2 h = None" by simp
      show ?thesis
      proof (cases "gethostbyname E (length (lookups s1)) h")
        case (Resolved ip)
        with host cache2 eq show ?thesis by (simp add: resolve_answer)
      next
        case Failed
        with host cache2 eq show ?thesis by (simp add: resolve_answer)
      next
        case (Raises e)
        with caught show ?thesis by blast
      qed
    next
      case False
      with no_override True parsed same_cache show ?thesis
        by (auto simp add: resolve_answer consults_dns_def split: option.splits)
    qed
    then obtain ip where ip: "fst (resolve_ip_async E hostname s1) = Inr ip"
      "fst (resolve_ip_async E hostname s2) = Inr ip" by metis
    from classify_signals [OF parsed no_override True, of s1] ip(1)
    have one: "fst (get_server_name_advanced E hs u s1) =
        Inr (signals_label (lower_keys E hs) (is_akamai_ip ip))"
      by (cases "resolve_ip_async E hostname s1") simp
    from classify_signals [OF parsed no_override True, of s2] ip(2)
    have two: "fst (get_server_name_advanced E hs u s2) =
        Inr (signals_label (lower_keys E hs) (is_akamai_ip ip))"
      by (cases "resolve_ip_async E hostname s2") simp
    from one two signals_label_cases [of "lower_keys E hs" "is_akamai_ip ip"]
    show ?thesis by auto
  qed
qed

text \<open>
  Two runs on a URL whose hostname is looked up and resolves to an address of Akamai,
  the second at a time when one lookup for another name has been made.
\<close>

theorem classifier_deterministic_witness:
  "ip_cache empty_resolver = ip_cache (empty_resolver\<lparr>lookups := [ascii ''a.test'']\<rparr>) \<and>
   urlparse_hostname (dns_env (Inr (Some (ascii ''cdn.test''))) (\<lambda>i. Resolved (ascii ''184.24.5.1'')) 200)
     (ascii ''https://cdn.test/'') = Inr (Some (ascii ''cdn.test'')) \<and>
   consults_dns (dns_env (Inr (Some (ascii ''cdn.test''))) (\<lambda>i. Resolved (ascii ''184.24.5.1'')) 200)
     [] (ascii ''https://cdn.test/'') empty_resolver (ascii ''cdn.test'') \<and>
   fst (get_server_name_advanced
          (dns_env (Inr (Some (ascii ''cdn.test''))) (\<lambda>i. Resolved (ascii ''184.24.5.1'')) 200)
          [] (ascii ''https://cdn.test/'') (empty_resolver\<lparr>lookups := [ascii ''a.test'']\<rparr>)) =
     Inr (ascii ''Akamai'') \<and>
   fst (get_server_name_advanced
          (dns_env (Inr (Some (ascii ''cdn.test''))) (\<lambda>i. Resolved (ascii ''184.24.5.1'')) 200)
          [] (ascii ''https://cdn.test/'') empty_resolver) = Inr (ascii ''Akamai'')"
proof -
  let ?E = "dns_env (Inr (Some (ascii ''cdn.test''))) (\<lambda>i. Resolved (ascii ''184.24.5.1'')) 200"
  let ?u = "ascii ''https://cdn.test/''"
  let ?s2 = "empty_resolver\<lparr>lookups := [ascii ''a.test'']\<rparr>"
  have cache: "ip_cache empty_resolver = ip_cache ?s2" by simp
  have host: "urlparse_hostname ?E ?u = Inr (Some (ascii ''cdn.test''))"
    by (simp add: dns_env_fields)
  have cons: "consults_dns ?E [] ?u empty_resolver (ascii ''cdn.test'')"
    by (rule dns_env_consults) (simp_all add: empty_resolver_def)
  have dns: "gethostbyname ?E (length (lookups empty_resolver)) h =
       gethostbyname ?E (length (lookups ?s2)) h \<and>
       (\<forall>e. gethostbyname ?E (length (lookups empty_resolver)) h \<noteq> Raises e)" for h
    by (simp add: dns_env_fields)
  note same = classifier_deterministic [of empty_resolver ?s2 ?E ?u "Some (ascii ''cdn.test'')" "[]",
      OF cache host dns, THEN conjunct1]
  have ne: "ascii ''cdn.test'' \<noteq> []" by simp
  have label: "fst (get_server_name_advanced ?E [] ?u empty_resolver) = Inr (ascii ''Akamai'')"
    by (simp add: dns_env_classify dns_env_lookup empty_resolver_def akamai_address)
  from same label
  have label2: "fst (get_server_name_advanced ?E [] ?u ?s2) = Inr (ascii ''Akamai'')"
    by simp
  show ?thesis
    by (intro conjI cache host cons label2 label)
qed

text \<open>
  The claim as stated fixes the headers, the URL and the cache only, and has the
  classifier return a label for every URL. With no headers and an empty cache, a run
  in which the lookup fails returns \<^verbatim>\<open>Unknown\<close> and leaves the cache empty; the next
  run, from that state, in which the lookup answers \<^verbatim>\<open>184.24.5.1\<close>, returns \<^verbatim>\<open>Akamai\<close>.
  For the URL \<^verbatim>\<open>http://[\<close> the classifier raises the \<^verbatim>\<open>ValueError\<close> of \<^verbatim>\<open>urlparse\<close>, and
  for the hostname \<^verbatim>\<open>a..b\<close> the \<^verbatim>\<open>UnicodeError\<close> of the lookup.
\<close>

theorem classifier_deterministic_counterexample:
  "get_server_name_advanced
     (dns_env (Inr (Some (ascii ''cdn.test'')))
        (\<lambda>i. if i = 0 then Failed else Resolved (ascii ''184.24.5.1'')) 200)
     [] (ascii ''https://cdn.test/'') empty_resolver =
     (Inr (ascii ''Unknown''), empty_resolver\<lparr>lookups := [ascii ''cdn.test'']\<rparr>) \<and>
   ip_cache (empty_resolver\<lparr>lookups := [ascii ''cdn.test'']\<rparr>) = ip_cache empty_resolver \<and>
   fst (get_server_name_advanced
     (dns_env (Inr (Some (ascii ''cdn.test'')))
        (\<lambda>i. if i = 0 then Failed else Resolved (ascii ''184.24.5.1'')) 200)
     [] (ascii ''https://cdn.test/'') (empty_resolver\<lparr>lookups := [ascii ''cdn.test'']\<rparr>)) =
     Inr (ascii ''Akamai'') \<and>
   fst (get_server_name_advanced (dns_env (Inl invalid_ipv6_url) (\<lambda>i. Failed) 200) []
     (ascii ''http://['') empty_resolver) = Inl invalid_ipv6_url \<and>
   fst (get_server_name_advanced
     (dns_env (Inr (Some (ascii ''a..b''))) (\<lambda>i. Raises label_empty) 200) []
     (ascii ''http://a..b/x'') empty_resolver) = Inl label_empty"
proof -
  let ?E = "dns_env (Inr (Some (ascii ''cdn.test'')))
        (\<lambda>i. if i = 0 then Failed else Resolved (ascii ''184.24.5.1'')) 200"
  have a: "get_server_name_advanced ?E [] (ascii ''https://cdn.test/'') empty_resolver =
     (Inr (ascii ''Unknown''), empty_resolver\<lparr>lookups := [ascii ''cdn.test'']\<rparr>)"
    by (simp add: dns_env_classify dns_env_lookup empty_resolver_def no_address)
  have b: "ip_cache (empty_resolver\<lparr>lookups := [ascii ''cdn.test'']\<rparr>) = ip_cache empty_resolver"
    by simp
  have c: "fst (get_server_name_advanced ?E [] (ascii ''https://cdn.test/'')
      (empty_resolver\<lparr>lookups := [ascii ''cdn.test'']\<rparr>)) = Inr (ascii ''Akamai'')"
    by (simp add: dns_env_classify dns_env_lookup empty_resolver_def akamai_address)
  have d: "fst (get_server_name_advanced (dns_env (Inl invalid_ipv6_url) (\<lambda>i. Failed) 200) []
     (ascii ''http://['') empty_resolver) = Inl invalid_ipv6_url"
    by (simp add: dns_env_unparsed)
  have e: "fst (get_server_name_advanced
     (dns_env (Inr (Some (ascii ''a..b''))) (\<lambda>i. Raises label_empty) 200) []
     (ascii ''http://a..b/x'') empty_resolver) = Inl label_empty"
    by (simp add: dns_env_classify dns_env_lookup empty_resolver_def)
  show ?thesis
    by (intro conjI a b c d e)
qed

subsection \<open>C10: a batch of blank lines\<close>

text \<open>
  Claim C10. When every line of the received text is empty or consists of whitespace,
  no walk is started, no result is sent, and the terminal marker is the only message,
  sent when the channel is connected; the resolver is left as it was.
\<close>

theorem blank_batch:
  assumes "\<forall>l \<in> set (splitlines data). \<forall>c \<in> set l. is_space c"
  shows "tasks (fst (websocket_endpoint Es connected data s)) = [] \<and>
         sent (fst (websocket_endpoint Es connected data s)) = (if connected 0 then [Done] else []) \<and>
         snd (websocket_endpoint Es connected data s) = s"
  using cleaned_urls_blank [OF assms]
  by (simp add: websocket_endpoint_def)

text \<open>
  Three lines: a space and a no-break space (U+00A0), ended by a line feed; nothing,
  ended by a line feed; an ideographic space (U+3000), ended by a line separator
  (U+2028).
\<close>

theorem blank_batch_witness:
  "splitlines [0x20, 0xA0, 0x0A, 0x0A, 0x3000, 0x2028] = [[0x20, 0xA0], [], [0x3000]] \<and>
   is_space 0x20 \<and> is_space 0xA0 \<and> is_space 0x3000 \<and>
   tasks (fst (websocket_endpoint (\<lambda>i. sample_env 0 200) (\<lambda>k. True)
     [0x20, 0xA0, 0x0A, 0x0A, 0x3000, 0x2028] empty_resolver)) = [] \<and>
   sent (fst (websocket_endpoint (\<lambda>i. sample_env 0 200) (\<lambda>k. True)
     [0x20, 0xA0, 0x0A, 0x0A, 0x3000, 0x2028] empty_resolver)) = [Done]"
proof -
  have l: "splitlines [0x20, 0xA0, 0x0A, 0x0A, 0x3000, 0x2028] = [[0x20, 0xA0], [], [0x3000]]"
    by (simp add: splitlines_def is_linebreak_def)
  have sp: "is_space 0x20" "is_space 0xA0" "is_space 0x3000" by (simp_all add: is_space_def)
  have blank: "\<forall>l \<in> set (splitlines [0x20, 0xA0, 0x0A, 0x0A, 0x3000, 0x2028]). \<forall>c \<in> set l. is_space c"
    unfolding l using sp by simp
  note b = blank_batch [OF blank, of "\<lambda>i. sample_env 0 200" "\<lambda>k. True" empty_resolver]
  note t = b [THEN conjunct1]
  have d: "sent (fst (websocket_endpoint (\<lambda>i. sample_env 0 200) (\<lambda>k. True)
     [0x20, 0xA0, 0x0A, 0x0A, 0x3000, 0x2028] empty_resolver)) = [Done]"
    using b [THEN conjunct2, THEN conjunct1] by simp
  show ?thesis
    by (intro conjI l sp t d)
qed

end
